theory Spec2Isabelle
  imports Complex_Main "HOL-Library.Multiset"
begin

section \<open>Data model of the form tree (lib/form.go)\<close>

text \<open>
  \<^verbatim>\<open>type FieldType string\<close>: a field kind is any Go string; the nineteen
  constants below are the recognized ones.
\<close>

type_synonym FieldType = string

definition FieldTypeText :: FieldType where "FieldTypeText = ''text''"
definition FieldTypeEmail :: FieldType where "FieldTypeEmail = ''email''"
definition FieldTypePassword :: FieldType where "FieldTypePassword = ''password''"
definition FieldTypeNumber :: FieldType where "FieldTypeNumber = ''number''"
definition FieldTypeTel :: FieldType where "FieldTypeTel = ''tel''"
definition FieldTypeURL :: FieldType where "FieldTypeURL = ''url''"
definition FieldTypeDate :: FieldType where "FieldTypeDate = ''date''"
definition FieldTypeTime :: FieldType where "FieldTypeTime = ''time''"
definition FieldTypeDateTime :: FieldType where "FieldTypeDateTime = ''datetime-local''"
definition FieldTypeMonth :: FieldType where "FieldTypeMonth = ''month''"
definition FieldTypeWeek :: FieldType where "FieldTypeWeek = ''week''"
definition FieldTypeTextarea :: FieldType where "FieldTypeTextarea = ''textarea''"
definition FieldTypeSelect :: FieldType where "FieldTypeSelect = ''select''"
definition FieldTypeCheckbox :: FieldType where "FieldTypeCheckbox = ''checkbox''"
definition FieldTypeRadio :: FieldType where "FieldTypeRadio = ''radio''"
definition FieldTypeFile :: FieldType where "FieldTypeFile = ''file''"
definition FieldTypeHidden :: FieldType where "FieldTypeHidden = ''hidden''"
definition FieldTypeObject :: FieldType where "FieldTypeObject = ''object''"
definition FieldTypeArray :: FieldType where "FieldTypeArray = ''array''"

lemmas FieldType_defs =
  FieldTypeText_def FieldTypeEmail_def FieldTypePassword_def FieldTypeNumber_def
  FieldTypeTel_def FieldTypeURL_def FieldTypeDate_def FieldTypeTime_def
  FieldTypeDateTime_def FieldTypeMonth_def FieldTypeWeek_def FieldTypeTextarea_def
  FieldTypeSelect_def FieldTypeCheckbox_def FieldTypeRadio_def FieldTypeFile_def
  FieldTypeHidden_def FieldTypeObject_def FieldTypeArray_def

text \<open>
  A Go \<^verbatim>\<open>float64\<close> as far as the validator uses it: it is only compared.
  Comparison is exact on floats, so the finite values are taken as the reals they
  denote; the infinities and NaN are kept apart because every ordered comparison
  with NaN is false.
\<close>

datatype float64 = Finite real | PosInf | NegInf | NaN

fun float_lt :: "float64 \<Rightarrow> float64 \<Rightarrow> bool" where
  "float_lt NaN y = False"
| "float_lt x NaN = False"
| "float_lt (Finite a) (Finite b) = (a < b)"
| "float_lt (Finite a) PosInf = True"
| "float_lt (Finite a) NegInf = False"
| "float_lt PosInf y = False"
| "float_lt NegInf NegInf = False"
| "float_lt NegInf y = True"

definition float_gt :: "float64 \<Rightarrow> float64 \<Rightarrow> bool" where
  "float_gt x y = float_lt y x"

definition float_le :: "float64 \<Rightarrow> float64 \<Rightarrow> bool" where
  "float_le x y = (x \<noteq> NaN \<and> y \<noteq> NaN \<and> \<not> float_lt y x)"

text \<open>
  A Go value of type \<^verbatim>\<open>any\<close>: \<open>None\<close> is the nil interface, \<open>Some v\<close> a
  value of the payload type \<open>'v\<close>, which is left open. The validator only formats
  such values with \<^verbatim>\<open>fmt.Sprintf("%v", _)\<close>: that function of the Go library is
  a parameter \<open>fmtv\<close> of the model.
\<close>

type_synonym 'v any = "'v option"

record 'v FormOption =
  OptLabel :: string
  OptValue :: "'v any"

text \<open>A nil pointer is \<open>None\<close>; Go's \<^verbatim>\<open>int\<close> is only compared, never computed with.\<close>

record Validation =
  Required :: bool
  MinLength :: "int option"
  MaxLength :: "int option"
  Min_val :: "float64 option"
  Max_val :: "float64 option"
  Pattern :: string
  PatternError :: string
  Step :: "float64 option"
  MinItems :: "int option"
  MaxItems :: "int option"

datatype 'v Field = Field
    (Name: string)
    (Type: FieldType)
    (Label: string)
    (Description: string)
    (Placeholder: string)
    (Default: "'v any")
    (Value: "'v any")
    (Options: "'v FormOption list")
    (Validation: "Validation option")
    (ReadOnly: bool)
    (Deprecated: bool)
    (Fields: "'v Field list")
    (Conditional: "'v ConditionalField option")
    (HelpText: string)
and 'v ConditionalField = ConditionalField
    (Condition: string)
    (CondValue: "'v any")
    (Then: "'v Field list")
    (Else: "'v Field list")

record 'v Form =
  Form_Title :: string
  Form_Description :: string
  Action :: string
  Method :: string
  Form_Fields :: "'v Field list"

section \<open>Errors of the validation engine\<close>

text \<open>
  The path that prefixes an error message, \<^verbatim>\<open>fields[1].fields[0]\<close> or
  \<^verbatim>\<open>fields[2].conditional.then[0]\<close>, kept as the list of its segments.
\<close>

datatype path_seg = fields_ix nat | then_ix nat | else_ix nat

type_synonym path = "path_seg list"

text \<open>One constructor for each \<^verbatim>\<open>fmt.Errorf\<close> of form.go, with the arguments of its message.\<close>

datatype error =
    ErrFormNil
  | ErrNoFields
  | ErrInvalidMethod string
  | ErrFieldNil path
  | ErrInvalidName path string
  | ErrReservedName path string
  | ErrDuplicateName path string
  | ErrInvalidType path FieldType
  | ErrRequiresOption path FieldType
  | ErrDuplicateOption path string nat
  | ErrCannotHaveOptions path FieldType
  | ErrMinLengthNegative path
  | ErrMaxLengthNegative path
  | ErrMinLengthGtMaxLength path int int
  | ErrMinGtMax path float64 float64
  | ErrMinItemsNegative path
  | ErrMaxItemsNegative path
  | ErrMinItemsGtMaxItems path int int
  | ErrStepNotPositive path float64
  | ErrMinMaxStepNotApplicable path FieldType
  | ErrItemsNotApplicable path FieldType
  | ErrLengthNotApplicable path FieldType
  | ErrNoCondition path
  | ErrCondNonExistent path string
  | ErrNestedWrongType path FieldType

text \<open>A run of guarded early returns: the first check that fails is the result.\<close>

fun first_error :: "error option list \<Rightarrow> error option" where
  "first_error [] = None"
| "first_error (None # cs) = first_error cs"
| "first_error (Some e # cs) = Some e"

section \<open>The validation engine (lib/form.go)\<close>

subsection \<open>validateFieldName\<close>

definition ascii_letters :: string where
  "ascii_letters = ''abcdefghijklmnopqrstuvwxyzABCDEFGHIJKLMNOPQRSTUVWXYZ''"

definition ascii_digits :: string where
  "ascii_digits = ''0123456789''"

text \<open>The regular expression \<^verbatim>\<open>^[a-zA-Z_][a-zA-Z0-9_.-]*$\<close> on a byte string.\<close>

fun validNamePattern :: "string \<Rightarrow> bool" where
  "validNamePattern [] = False"
| "validNamePattern (c # cs) =
     (c \<in> set (ascii_letters @ ''_'') \<and>
      list_all (\<lambda>d. d \<in> set (ascii_letters @ ascii_digits @ ''_.-'')) cs)"

text \<open>
  \<^verbatim>\<open>strings.ToLower\<close> on the names that reach it: they have matched the pattern,
  so they are ASCII, where lowering changes exactly the letters A to Z.
\<close>

definition lower_char :: "char \<Rightarrow> char" where
  "lower_char c =
     (case map_of (zip ''ABCDEFGHIJKLMNOPQRSTUVWXYZ'' ''abcdefghijklmnopqrstuvwxyz'') c of
        Some l \<Rightarrow> l | None \<Rightarrow> c)"

definition ToLower :: "string \<Rightarrow> string" where
  "ToLower s = map lower_char s"

definition reservedNames :: "string set" where
  "reservedNames = {''submit'', ''reset'', ''button'', ''form'', ''fieldset'', ''legend''}"

definition validateFieldName :: "string \<Rightarrow> path \<Rightarrow> error option" where
  "validateFieldName name path =
     (if name = [] then None
      else if \<not> validNamePattern name then Some (ErrInvalidName path name)
      else if ToLower name \<in> reservedNames then Some (ErrReservedName path name)
      else None)"

subsection \<open>validateFieldType\<close>

definition validTypes :: "FieldType set" where
  "validTypes = {FieldTypeText, FieldTypeEmail, FieldTypePassword, FieldTypeNumber,
     FieldTypeTel, FieldTypeURL, FieldTypeDate, FieldTypeTime, FieldTypeDateTime,
     FieldTypeMonth, FieldTypeWeek, FieldTypeTextarea, FieldTypeSelect,
     FieldTypeCheckbox, FieldTypeRadio, FieldTypeFile, FieldTypeHidden,
     FieldTypeObject, FieldTypeArray}"

definition validateFieldType :: "FieldType \<Rightarrow> path \<Rightarrow> error option" where
  "validateFieldType fieldType path =
     (if fieldType \<notin> validTypes then Some (ErrInvalidType path fieldType) else None)"

subsection \<open>validateFieldTypeConstraints\<close>

text \<open>
  The loop over the options with its table \<^verbatim>\<open>optionValues\<close> of the values seen
  so far; \<open>i\<close> is the index of the head of the list.
\<close>

fun uniqueOptionValues ::
  "('v any \<Rightarrow> string) \<Rightarrow> path \<Rightarrow> nat \<Rightarrow> 'v FormOption list \<Rightarrow> string set \<Rightarrow> error option"
where
  "uniqueOptionValues fmtv path i [] optionValues = None"
| "uniqueOptionValues fmtv path i (option # rest) optionValues =
     (let optionValue = fmtv (OptValue option) in
      if optionValue \<in> optionValues then Some (ErrDuplicateOption path optionValue i)
      else uniqueOptionValues fmtv path (Suc i) rest (insert optionValue optionValues))"

definition is_textlike :: "FieldType \<Rightarrow> bool" where
  "is_textlike t = (t = FieldTypeText \<or> t = FieldTypeEmail \<or> t = FieldTypePassword \<or>
     t = FieldTypeURL \<or> t = FieldTypeTel \<or> t = FieldTypeTextarea)"

definition is_datelike :: "FieldType \<Rightarrow> bool" where
  "is_datelike t = (t = FieldTypeDate \<or> t = FieldTypeTime \<or> t = FieldTypeDateTime \<or>
     t = FieldTypeMonth \<or> t = FieldTypeWeek)"

definition is_choice :: "FieldType \<Rightarrow> bool" where
  "is_choice t = (t = FieldTypeCheckbox \<or> t = FieldTypeRadio \<or> t = FieldTypeSelect)"

definition validateFieldTypeConstraints ::
  "('v any \<Rightarrow> string) \<Rightarrow> 'v Field \<Rightarrow> path \<Rightarrow> error option"
where
  "validateFieldTypeConstraints fmtv field path = first_error
     [ if Type field = FieldTypeSelect \<or> Type field = FieldTypeRadio then
         (if Options field = [] then Some (ErrRequiresOption path (Type field))
          else uniqueOptionValues fmtv path 0 (Options field) {})
       else None,
       if Type field = FieldTypeCheckbox \<and> Options field \<noteq> [] then
         uniqueOptionValues fmtv path 0 (Options field) {}
       else None,
       if is_textlike (Type field) \<and> Options field \<noteq> [] then
         Some (ErrCannotHaveOptions path (Type field))
       else None,
       if Type field = FieldTypeNumber \<and> Options field \<noteq> [] then
         Some (ErrCannotHaveOptions path (Type field))
       else None,
       if is_datelike (Type field) \<and> Options field \<noteq> [] then
         Some (ErrCannotHaveOptions path (Type field))
       else None ]"

subsection \<open>validateValidationRules\<close>

definition validateValidationRules ::
  "Validation option \<Rightarrow> FieldType \<Rightarrow> path \<Rightarrow> error option"
where
  "validateValidationRules validation fieldType path =
     (case validation of
        None \<Rightarrow> None
      | Some v \<Rightarrow> first_error
         [ case MinLength v of Some m \<Rightarrow>
             if m < 0 then Some (ErrMinLengthNegative path) else None | None \<Rightarrow> None,
           case MaxLength v of Some m \<Rightarrow>
             if m < 0 then Some (ErrMaxLengthNegative path) else None | None \<Rightarrow> None,
           case (MinLength v, MaxLength v) of
             (Some lo, Some hi) \<Rightarrow>
               if lo > hi then Some (ErrMinLengthGtMaxLength path lo hi) else None
           | _ \<Rightarrow> None,
           case (Min_val v, Max_val v) of
             (Some lo, Some hi) \<Rightarrow>
               if float_gt lo hi then Some (ErrMinGtMax path lo hi) else None
           | _ \<Rightarrow> None,
           case MinItems v of Some m \<Rightarrow>
             if m < 0 then Some (ErrMinItemsNegative path) else None | None \<Rightarrow> None,
           case MaxItems v of Some m \<Rightarrow>
             if m < 0 then Some (ErrMaxItemsNegative path) else None | None \<Rightarrow> None,
           case (MinItems v, MaxItems v) of
             (Some lo, Some hi) \<Rightarrow>
               if lo > hi then Some (ErrMinItemsGtMaxItems path lo hi) else None
           | _ \<Rightarrow> None,
           case Step v of Some s \<Rightarrow>
             if float_le s (Finite 0) then Some (ErrStepNotPositive path s) else None
           | None \<Rightarrow> None,
           if is_textlike fieldType then first_error
             [ if Min_val v \<noteq> None \<or> Max_val v \<noteq> None \<or> Step v \<noteq> None
               then Some (ErrMinMaxStepNotApplicable path fieldType) else None,
               if MinItems v \<noteq> None \<or> MaxItems v \<noteq> None
               then Some (ErrItemsNotApplicable path fieldType) else None ]
           else None,
           if fieldType = FieldTypeNumber then first_error
             [ if MinLength v \<noteq> None \<or> MaxLength v \<noteq> None
               then Some (ErrLengthNotApplicable path fieldType) else None,
               if MinItems v \<noteq> None \<or> MaxItems v \<noteq> None
               then Some (ErrItemsNotApplicable path fieldType) else None ]
           else None,
           if fieldType = FieldTypeArray then first_error
             [ if MinLength v \<noteq> None \<or> MaxLength v \<noteq> None
               then Some (ErrLengthNotApplicable path fieldType) else None,
               if Min_val v \<noteq> None \<or> Max_val v \<noteq> None \<or> Step v \<noteq> None
               then Some (ErrMinMaxStepNotApplicable path fieldType) else None ]
           else None,
           if is_choice fieldType then first_error
             [ if MinLength v \<noteq> None \<or> MaxLength v \<noteq> None
               then Some (ErrLengthNotApplicable path fieldType) else None,
               if Min_val v \<noteq> None \<or> Max_val v \<noteq> None \<or> Step v \<noteq> None
               then Some (ErrMinMaxStepNotApplicable path fieldType) else None,
               if MinItems v \<noteq> None \<or> MaxItems v \<noteq> None
               then Some (ErrItemsNotApplicable path fieldType) else None ]
           else None ])"

subsection \<open>validateField, validateConditionalField and the loops over field lists\<close>

text \<open>
  The table \<^verbatim>\<open>map[string]bool\<close> of the names registered in a scope holds only
  \<^verbatim>\<open>true\<close> entries and a missing key reads as \<^verbatim>\<open>false\<close>: it is the set of
  its keys. Go mutates the table in place; the model returns the table as the call
  leaves it. \<open>register\<close> is the assignment guarded by \<^verbatim>\<open>field.Name != ""\<close>.
\<close>

definition register :: "string \<Rightarrow> string set \<Rightarrow> string set" where
  "register name names = (if name \<noteq> [] then insert name names else names)"

text \<open>
  The checks of validateField on the field itself, in the order of the source: the
  name, the duplicate among the names registered so far, the type, the constraints of
  the type, and the validation rules when the field has a validation block. The
  registration of the name, which the source does right after the duplicate check, is
  the \<open>register\<close> of the table that validateField hands on and returns.
\<close>

definition own_checks ::
  "('v any \<Rightarrow> string) \<Rightarrow> 'v Field \<Rightarrow> string set \<Rightarrow> path \<Rightarrow> error option"
where
  "own_checks fmtv field parentFieldNames path = first_error
     [ validateFieldName (Name field) path,
       if Name field \<noteq> [] \<and> Name field \<in> parentFieldNames
       then Some (ErrDuplicateName path (Name field)) else None,
       validateFieldType (Type field) path,
       validateFieldTypeConstraints fmtv field path,
       if Validation field \<noteq> None
       then validateValidationRules (Validation field) (Type field) path else None ]"

text \<open>
  \<open>validateFields fmtv path seg i fields names\<close> is the loop
  \<^verbatim>\<open>for i, field := range fields\<close> that calls \<^verbatim>\<open>validateField(&field, names, path_i)\<close>
  and returns at the first error; it occurs four times in the source (top level,
  nested fields, then, else), with \<open>seg\<close> the path segment it appends and \<open>i\<close>
  the index of the head of the list.
\<close>

function validateField ::
    "('v any \<Rightarrow> string) \<Rightarrow> 'v Field option \<Rightarrow> string set \<Rightarrow> path \<Rightarrow> error + string set"
  and validateFields ::
    "('v any \<Rightarrow> string) \<Rightarrow> path \<Rightarrow> (nat \<Rightarrow> path_seg) \<Rightarrow> nat \<Rightarrow> 'v Field list \<Rightarrow> string set
       \<Rightarrow> error + string set"
  and validateConditionalField ::
    "('v any \<Rightarrow> string) \<Rightarrow> 'v ConditionalField option \<Rightarrow> string set \<Rightarrow> path \<Rightarrow> error option"
where
  "validateField fmtv None parentFieldNames path = Inl (ErrFieldNil path)"
| "validateField fmtv (Some field) parentFieldNames path =
     (case own_checks fmtv field parentFieldNames path of
        Some err \<Rightarrow> Inl err
      | None \<Rightarrow>
     (case (if Conditional field \<noteq> None
            then validateConditionalField fmtv (Conditional field)
                   (register (Name field) parentFieldNames) path
            else None) of
        Some err \<Rightarrow> Inl err
      | None \<Rightarrow>
     if Fields field \<noteq> [] then
       if Type field \<noteq> FieldTypeObject \<and> Type field \<noteq> FieldTypeArray
       then Inl (ErrNestedWrongType path (Type field))
       else
         (case validateFields fmtv path fields_ix 0 (Fields field) {} of
            Inl err \<Rightarrow> Inl err
          | Inr nestedFieldNames \<Rightarrow> Inr (register (Name field) parentFieldNames))
     else Inr (register (Name field) parentFieldNames)))"
| "validateFields fmtv path seg i [] fieldNames = Inr fieldNames"
| "validateFields fmtv path seg i (field # rest) fieldNames =
     (case validateField fmtv (Some field) fieldNames (path @ [seg i]) of
        Inl err \<Rightarrow> Inl err
      | Inr fieldNames' \<Rightarrow> validateFields fmtv path seg (Suc i) rest fieldNames')"
| "validateConditionalField fmtv None parentFieldNames path = None"
| "validateConditionalField fmtv (Some conditional) parentFieldNames path =
     (if Condition conditional = [] then Some (ErrNoCondition path)
      else if Condition conditional \<notin> parentFieldNames
      then Some (ErrCondNonExistent path (Condition conditional))
      else
     (case (if Then conditional \<noteq> []
            then validateFields fmtv path then_ix 0 (Then conditional) {}
            else Inr {}) of
        Inl err \<Rightarrow> Some err
      | Inr thenFieldNames \<Rightarrow>
     (case (if Else conditional \<noteq> []
            then validateFields fmtv path else_ix 0 (Else conditional) {}
            else Inr {}) of
        Inl err \<Rightarrow> Some err
      | Inr elseFieldNames \<Rightarrow> None)))"
  by pat_completeness auto

lemma size_Fields: "size_list size (Fields f) < size f"
  by (cases f) simp

lemma size_Conditional: "Conditional f = Some c \<Longrightarrow> size c < size f"
  by (cases f) simp

lemma size_Then: "size_list size (Then c) < size c"
  by (cases c) simp

lemma size_Else: "size_list size (Else c) < size c"
  by (cases c) simp

lemma size_Conditional_opt: "size_option size (Conditional f) \<le> size f"
  by (cases f) simp

termination validateField
proof (relation "measure (\<lambda>x. case x of
           Inl (fmtv, f, ns, p) \<Rightarrow> 2 * size_option size f
         | Inr (Inl (fmtv, p, seg, i, fs, ns)) \<Rightarrow> 2 * size_list size fs + 1
         | Inr (Inr (fmtv, c, ns, p)) \<Rightarrow> 2 * size_option size c)", goal_cases)
  case 1
  show ?case by simp
next
  case (2 fmtv field parentFieldNames path)
  show ?case using size_Conditional_opt [of field] by simp
next
  case (3 fmtv field parentFieldNames path)
  show ?case using size_Fields [of field] by simp
next
  case (4 fmtv path seg i field rest fieldNames)
  show ?case by simp
next
  case (5 fmtv path seg i field rest fieldNames x)
  show ?case by simp
next
  case (6 fmtv conditional parentFieldNames path)
  show ?case using size_Then [of conditional] by simp
next
  case (7 fmtv conditional parentFieldNames path x)
  show ?case using size_Else [of conditional] by simp
qed


subsection \<open>Validate\<close>

definition validMethods :: "string set" where
  "validMethods = {''GET'', ''POST'', ''PUT'', ''PATCH'', ''DELETE'', ''HEAD'', ''OPTIONS''}"

text \<open>
  \<open>Validate ToUpper fmtv f\<close>: the receiver \<open>f\<close> may be nil; \<open>None\<close> as result is
  the nil error. \<^verbatim>\<open>strings.ToUpper\<close> and \<^verbatim>\<open>fmt.Sprintf("%v", _)\<close> are the two
  functions of the Go library the validator calls on arbitrary input; they are
  parameters.
\<close>

definition Validate ::
  "(string \<Rightarrow> string) \<Rightarrow> ('v any \<Rightarrow> string) \<Rightarrow> 'v Form option \<Rightarrow> error option"
where
  "Validate ToUpper fmtv f =
     (case f of
        None \<Rightarrow> Some ErrFormNil
      | Some form \<Rightarrow>
          if Form_Fields form = [] then Some ErrNoFields
          else if Method form \<noteq> [] \<and> ToUpper (Method form) \<notin> validMethods
          then Some (ErrInvalidMethod (Method form))
          else
            (case validateFields fmtv [] fields_ix 0 (Form_Fields form) {} of
               Inl err \<Rightarrow> Some err
             | Inr fieldNames \<Rightarrow> None))"

text \<open>
  Instances of the two library parameters for concrete runs: on ASCII input
  \<^verbatim>\<open>strings.ToUpper\<close> raises exactly the letters a to z, and \<^verbatim>\<open>%v\<close> prints a Go
  string as itself and the nil interface as \<^verbatim>\<open><nil>\<close>.
\<close>

definition upper_char :: "char \<Rightarrow> char" where
  "upper_char c =
     (case map_of (zip ''abcdefghijklmnopqrstuvwxyz'' ''ABCDEFGHIJKLMNOPQRSTUVWXYZ'') c of
        Some u \<Rightarrow> u | None \<Rightarrow> c)"

definition ToUpper_ascii :: "string \<Rightarrow> string" where
  "ToUpper_ascii s = map upper_char s"

definition Sprint_string :: "string any \<Rightarrow> string" where
  "Sprint_string v = (case v of None \<Rightarrow> ''<nil>'' | Some s \<Rightarrow> s)"

section \<open>Specification of the validation engine\<close>

subsection \<open>Error taxonomy and error paths\<close>

text \<open>
  The error taxonomy of section 7 of the specification. The messages it does not list
  (an invalid HTTP method, a nil field, options on a kind that takes none) are left
  unclassified.
\<close>

datatype error_class =
  StructuralError | NameError | KindError | ConstraintError | ReferenceError | Unclassified

fun class_of :: "error \<Rightarrow> error_class" where
  "class_of ErrFormNil = StructuralError"
| "class_of ErrNoFields = StructuralError"
| "class_of (ErrInvalidMethod m) = Unclassified"
| "class_of (ErrFieldNil p) = Unclassified"
| "class_of (ErrInvalidName p n) = NameError"
| "class_of (ErrReservedName p n) = NameError"
| "class_of (ErrDuplicateName p n) = NameError"
| "class_of (ErrInvalidType p t) = KindError"
| "class_of (ErrRequiresOption p t) = ConstraintError"
| "class_of (ErrDuplicateOption p v i) = ConstraintError"
| "class_of (ErrCannotHaveOptions p t) = Unclassified"
| "class_of (ErrMinLengthNegative p) = ConstraintError"
| "class_of (ErrMaxLengthNegative p) = ConstraintError"
| "class_of (ErrMinLengthGtMaxLength p lo hi) = ConstraintError"
| "class_of (ErrMinGtMax p lo hi) = ConstraintError"
| "class_of (ErrMinItemsNegative p) = ConstraintError"
| "class_of (ErrMaxItemsNegative p) = ConstraintError"
| "class_of (ErrMinItemsGtMaxItems p lo hi) = ConstraintError"
| "class_of (ErrStepNotPositive p s) = ConstraintError"
| "class_of (ErrMinMaxStepNotApplicable p t) = ConstraintError"
| "class_of (ErrItemsNotApplicable p t) = ConstraintError"
| "class_of (ErrLengthNotApplicable p t) = ConstraintError"
| "class_of (ErrNoCondition p) = ReferenceError"
| "class_of (ErrCondNonExistent p n) = ReferenceError"
| "class_of (ErrNestedWrongType p t) = KindError"

text \<open>The path an error message starts with; the three errors of the form itself have none.\<close>

fun error_path :: "error \<Rightarrow> path" where
  "error_path ErrFormNil = []"
| "error_path ErrNoFields = []"
| "error_path (ErrInvalidMethod m) = []"
| "error_path (ErrFieldNil p) = p"
| "error_path (ErrInvalidName p n) = p"
| "error_path (ErrReservedName p n) = p"
| "error_path (ErrDuplicateName p n) = p"
| "error_path (ErrInvalidType p t) = p"
| "error_path (ErrRequiresOption p t) = p"
| "error_path (ErrDuplicateOption p v i) = p"
| "error_path (ErrCannotHaveOptions p t) = p"
| "error_path (ErrMinLengthNegative p) = p"
| "error_path (ErrMaxLengthNegative p) = p"
| "error_path (ErrMinLengthGtMaxLength p lo hi) = p"
| "error_path (ErrMinGtMax p lo hi) = p"
| "error_path (ErrMinItemsNegative p) = p"
| "error_path (ErrMaxItemsNegative p) = p"
| "error_path (ErrMinItemsGtMaxItems p lo hi) = p"
| "error_path (ErrStepNotPositive p s) = p"
| "error_path (ErrMinMaxStepNotApplicable p t) = p"
| "error_path (ErrItemsNotApplicable p t) = p"
| "error_path (ErrLengthNotApplicable p t) = p"
| "error_path (ErrNoCondition p) = p"
| "error_path (ErrCondNonExistent p n) = p"
| "error_path (ErrNestedWrongType p t) = p"

subsection \<open>The invariants of section 3 of the specification, and those form.go enforces\<close>

text \<open>
  A name, if non-empty, matches the pattern and is not, case-insensitively, one of the
  reserved words.
\<close>

definition name_ok :: "string \<Rightarrow> bool" where
  "name_ok n = (n = [] \<or> (validNamePattern n \<and> ToLower n \<notin> reservedNames))"

text \<open>
  select and radio require at least one option and pairwise distinct stringified option
  values; checkbox permits options, pairwise distinct; text-like kinds, number and
  date-like kinds carry no options.
\<close>

definition option_values :: "('v any \<Rightarrow> string) \<Rightarrow> 'v Field \<Rightarrow> string list" where
  "option_values fmtv f = map (\<lambda>option. fmtv (OptValue option)) (Options f)"

definition options_ok :: "('v any \<Rightarrow> string) \<Rightarrow> 'v Field \<Rightarrow> bool" where
  "options_ok fmtv f =
     ((Type f = FieldTypeSelect \<or> Type f = FieldTypeRadio \<longrightarrow>
         Options f \<noteq> [] \<and> distinct (option_values fmtv f)) \<and>
      (Type f = FieldTypeCheckbox \<longrightarrow> distinct (option_values fmtv f)) \<and>
      (is_textlike (Type f) \<or> Type f = FieldTypeNumber \<or> is_datelike (Type f) \<longrightarrow>
         Options f = []))"

text \<open>
  minLength is at most maxLength when both are present, and neither is negative; min is
  not greater than max; minItems is at most maxItems, and neither is negative; step is
  not zero or below. The two float conditions are worded as the specification's testable
  properties (section 8) and error taxonomy (section 7) word them: "min > max" and
  "non-positive step" are the violations.
\<close>

definition bounds_ok :: "Validation \<Rightarrow> bool" where
  "bounds_ok v =
     ((\<forall>m. MinLength v = Some m \<longrightarrow> 0 \<le> m) \<and>
      (\<forall>m. MaxLength v = Some m \<longrightarrow> 0 \<le> m) \<and>
      (\<forall>lo hi. MinLength v = Some lo \<and> MaxLength v = Some hi \<longrightarrow> lo \<le> hi) \<and>
      (\<forall>lo hi. Min_val v = Some lo \<and> Max_val v = Some hi \<longrightarrow> \<not> float_gt lo hi) \<and>
      (\<forall>m. MinItems v = Some m \<longrightarrow> 0 \<le> m) \<and>
      (\<forall>m. MaxItems v = Some m \<longrightarrow> 0 \<le> m) \<and>
      (\<forall>lo hi. MinItems v = Some lo \<and> MaxItems v = Some hi \<longrightarrow> lo \<le> hi) \<and>
      (\<forall>s. Step v = Some s \<longrightarrow> \<not> float_le s (Finite 0)))"

definition has_length_bound :: "Validation \<Rightarrow> bool" where
  "has_length_bound v = (MinLength v \<noteq> None \<or> MaxLength v \<noteq> None)"

definition has_numeric_bound :: "Validation \<Rightarrow> bool" where
  "has_numeric_bound v = (Min_val v \<noteq> None \<or> Max_val v \<noteq> None \<or> Step v \<noteq> None)"

definition has_item_bound :: "Validation \<Rightarrow> bool" where
  "has_item_bound v = (MinItems v \<noteq> None \<or> MaxItems v \<noteq> None)"

text \<open>
  Section 3: string bounds only for text-like kinds; numeric bounds only for number;
  item bounds only for array (so the choice kinds, as every other kind, permit none).
\<close>

definition kind_match_s3 :: "FieldType \<Rightarrow> Validation \<Rightarrow> bool" where
  "kind_match_s3 t v =
     ((has_length_bound v \<longrightarrow> is_textlike t) \<and>
      (has_numeric_bound v \<longrightarrow> t = FieldTypeNumber) \<and>
      (has_item_bound v \<longrightarrow> t = FieldTypeArray))"

text \<open>
  The kind matching that form.go enforces: the bounds of the wrong group are refused
  on text-like kinds, number, array and the choice kinds; on every other kind (the
  date-like kinds, file, hidden, object) any bound is accepted.
\<close>

definition kind_match_enforced :: "FieldType \<Rightarrow> Validation \<Rightarrow> bool" where
  "kind_match_enforced t v =
     ((is_textlike t \<longrightarrow> \<not> has_numeric_bound v \<and> \<not> has_item_bound v) \<and>
      (t = FieldTypeNumber \<longrightarrow> \<not> has_length_bound v \<and> \<not> has_item_bound v) \<and>
      (t = FieldTypeArray \<longrightarrow> \<not> has_length_bound v \<and> \<not> has_numeric_bound v) \<and>
      (is_choice t \<longrightarrow>
         \<not> has_length_bound v \<and> \<not> has_numeric_bound v \<and> \<not> has_item_bound v))"

text \<open>The kinds on which form.go refuses minLength and maxLength.\<close>

definition length_gated :: "FieldType \<Rightarrow> bool" where
  "length_gated t = (t = FieldTypeNumber \<or> t = FieldTypeArray \<or> is_choice t)"

text \<open>
  The invariants of one field, with the kind matching \<open>K\<close> of its validation block
  left open: a well-formed, non-reserved name; a recognized kind; children only on
  object and array; the option rules; consistent and kind-matched bounds.
\<close>

definition field_rules ::
  "(FieldType \<Rightarrow> Validation \<Rightarrow> bool) \<Rightarrow> ('v any \<Rightarrow> string) \<Rightarrow> 'v Field \<Rightarrow> bool"
where
  "field_rules K fmtv f =
     (name_ok (Name f) \<and>
      Type f \<in> validTypes \<and>
      (Fields f \<noteq> [] \<longrightarrow> Type f = FieldTypeObject \<or> Type f = FieldTypeArray) \<and>
      options_ok fmtv f \<and>
      (\<forall>v. Validation f = Some v \<longrightarrow> bounds_ok v \<and> K (Type f) v))"

text \<open>
  The invariants of one sibling scope: the non-empty names are pairwise distinct
  (section 8 words the uniqueness for siblings that share a non-empty name), and
  the condition of a conditional names a field registered in the scope when the
  conditional is checked, which are the fields up to and including its own.
\<close>

definition siblings_ok :: "'v Field list \<Rightarrow> bool" where
  "siblings_ok fs =
     (distinct (filter (\<lambda>n. n \<noteq> []) (map Name fs)) \<and>
      (\<forall>i < length fs. \<forall>c. Conditional (fs ! i) = Some c \<longrightarrow>
          Condition c \<noteq> [] \<and> Condition c \<in> set (map Name (take (Suc i) fs))))"

text \<open>
  The invariants of a whole tree: every scope (a list of nested children, a then list,
  an else list, each a scope of its own) satisfies \<open>siblings_ok\<close> and every field the
  rules \<open>R\<close>.
\<close>

function tree_ok :: "('v Field \<Rightarrow> bool) \<Rightarrow> 'v Field list \<Rightarrow> bool" where
  "tree_ok R fs =
     (siblings_ok fs \<and>
      (\<forall>f \<in> set fs. R f \<and> tree_ok R (Fields f) \<and>
         (case Conditional f of
            None \<Rightarrow> True
          | Some c \<Rightarrow> tree_ok R (Then c) \<and> tree_ok R (Else c))))"
  by pat_completeness auto

lemma size_member: "f \<in> set fs \<Longrightarrow> size f < Suc (size_list size fs)"
  by (induction fs) auto

termination tree_ok
proof (relation "measure (\<lambda>(R, fs). size_list size fs)", goal_cases)
  case 1
  show ?case by simp
next
  case (2 R fs f)
  then show ?case using size_member [of f fs] size_Fields [of f] by simp
next
  case (3 R fs f c)
  then show ?case
    using size_member [of f fs] size_Conditional [of f c] size_Then [of c] by simp
next
  case (4 R fs f c)
  then show ?case
    using size_member [of f fs] size_Conditional [of f c] size_Else [of c] by simp
qed

definition method_ok :: "(string \<Rightarrow> string) \<Rightarrow> string \<Rightarrow> bool" where
  "method_ok ToUpper m = (m = [] \<or> ToUpper m \<in> validMethods)"

text \<open>
  A form has at least one top-level field, a method that is empty or a recognized HTTP
  verb, and a field tree that satisfies the invariants.
\<close>

definition form_ok ::
  "(string \<Rightarrow> string) \<Rightarrow> ('v Field \<Rightarrow> bool) \<Rightarrow> 'v Form \<Rightarrow> bool"
where
  "form_ok ToUpper R form =
     (Form_Fields form \<noteq> [] \<and> method_ok ToUpper (Method form) \<and>
      tree_ok R (Form_Fields form))"

definition s3_invariants ::
  "(string \<Rightarrow> string) \<Rightarrow> ('v any \<Rightarrow> string) \<Rightarrow> 'v Form \<Rightarrow> bool"
where
  "s3_invariants ToUpper fmtv form = form_ok ToUpper (field_rules kind_match_s3 fmtv) form"

definition enforced_invariants ::
  "(string \<Rightarrow> string) \<Rightarrow> ('v any \<Rightarrow> string) \<Rightarrow> 'v Form \<Rightarrow> bool"
where
  "enforced_invariants ToUpper fmtv form =
     form_ok ToUpper (field_rules kind_match_enforced fmtv) form"

text \<open>
  The fields of a tree: the fields of the list, their nested children, and the fields
  of the then and else lists of their conditionals, at any depth.
\<close>

inductive_set fields_of :: "'v Field list \<Rightarrow> 'v Field set" for fs :: "'v Field list" where
  top: "f \<in> set fs \<Longrightarrow> f \<in> fields_of fs"
| nested: "g \<in> fields_of fs \<Longrightarrow> f \<in> set (Fields g) \<Longrightarrow> f \<in> fields_of fs"
| in_then: "g \<in> fields_of fs \<Longrightarrow> Conditional g = Some c \<Longrightarrow> f \<in> set (Then c)
     \<Longrightarrow> f \<in> fields_of fs"
| in_else: "g \<in> fields_of fs \<Longrightarrow> Conditional g = Some c \<Longrightarrow> f \<in> set (Else c)
     \<Longrightarrow> f \<in> fields_of fs"

subsection \<open>The order of the traversal\<close>

text \<open>
  The order of the traversal, as the list of the violations it meets: for a field, the
  violations of its own checks; then those of its conditional, which are the reference
  check followed by the then list and the else list, each a scope of its own; and only
  then those of its nested children, a scope of its own again. The fields of a list
  come in list order, and a field's name counts as registered for the fields after it
  and for its own conditional.
\<close>

fun somes :: "'a option list \<Rightarrow> 'a list" where
  "somes [] = []"
| "somes (None # cs) = somes cs"
| "somes (Some e # cs) = e # somes cs"

definition first_of :: "'a list \<Rightarrow> 'a option" where
  "first_of es = (case es of [] \<Rightarrow> None | e # _ \<Rightarrow> Some e)"

function field_violations ::
    "('v any \<Rightarrow> string) \<Rightarrow> 'v Field \<Rightarrow> string set \<Rightarrow> path \<Rightarrow> error list"
  and fields_violations ::
    "('v any \<Rightarrow> string) \<Rightarrow> path \<Rightarrow> (nat \<Rightarrow> path_seg) \<Rightarrow> nat \<Rightarrow> 'v Field list \<Rightarrow> string set
       \<Rightarrow> error list"
  and conditional_violations ::
    "('v any \<Rightarrow> string) \<Rightarrow> 'v ConditionalField \<Rightarrow> string set \<Rightarrow> path \<Rightarrow> error list"
where
  "field_violations fmtv f S p =
     somes [ validateFieldName (Name f) p,
             if Name f \<noteq> [] \<and> Name f \<in> S then Some (ErrDuplicateName p (Name f)) else None,
             validateFieldType (Type f) p,
             validateFieldTypeConstraints fmtv f p,
             case Validation f of None \<Rightarrow> None
             | Some v \<Rightarrow> validateValidationRules (Some v) (Type f) p ]
     @ (case Conditional f of
          None \<Rightarrow> []
        | Some c \<Rightarrow> conditional_violations fmtv c (register (Name f) S) p)
     @ (if Fields f = [] then []
        else somes [ if Type f \<noteq> FieldTypeObject \<and> Type f \<noteq> FieldTypeArray
                     then Some (ErrNestedWrongType p (Type f)) else None ]
             @ fields_violations fmtv p fields_ix 0 (Fields f) {})"
| "fields_violations fmtv p seg i [] S = []"
| "fields_violations fmtv p seg i (f # fs) S =
     field_violations fmtv f S (p @ [seg i])
     @ fields_violations fmtv p seg (Suc i) fs (register (Name f) S)"
| "conditional_violations fmtv c S p =
     somes [ if Condition c = [] then Some (ErrNoCondition p)
             else if Condition c \<notin> S then Some (ErrCondNonExistent p (Condition c))
             else None ]
     @ fields_violations fmtv p then_ix 0 (Then c) {}
     @ fields_violations fmtv p else_ix 0 (Else c) {}"
  by pat_completeness auto

termination field_violations
proof (relation "measure (\<lambda>x. case x of
           Inl (fmtv, f, S, p) \<Rightarrow> 2 * size f + 2
         | Inr (Inl (fmtv, p, seg, i, fs, S)) \<Rightarrow> 2 * size_list size fs + 1
         | Inr (Inr (fmtv, c, S, p)) \<Rightarrow> 2 * size c + 2)", goal_cases)
  case 1
  show ?case by simp
next
  case (2 fmtv f S p c)
  then show ?case using size_Conditional [of f c] by simp
next
  case (3 fmtv f S p)
  show ?case using size_Fields [of f] by simp
next
  case (4 fmtv p seg i f fs S)
  show ?case by simp
next
  case (5 fmtv p seg i f fs S)
  show ?case by simp
next
  case (6 fmtv c S p)
  show ?case using size_Then [of c] by simp
next
  case (7 fmtv c S p)
  show ?case using size_Else [of c] by simp
qed

definition form_violations ::
  "(string \<Rightarrow> string) \<Rightarrow> ('v any \<Rightarrow> string) \<Rightarrow> 'v Form \<Rightarrow> error list"
where
  "form_violations ToUpper fmtv form =
     somes [ if Form_Fields form = [] then Some ErrNoFields else None,
             if Method form \<noteq> [] \<and> ToUpper (Method form) \<notin> validMethods
             then Some (ErrInvalidMethod (Method form)) else None ]
     @ fields_violations fmtv [] fields_ix 0 (Form_Fields form) {}"

subsection \<open>Auxiliary notions\<close>

text \<open>
  One field with its subtrees: the field satisfies the rules \<open>R\<close>, and its nested
  children, its then list and its else list are trees that satisfy the invariants.
\<close>

definition node_ok :: "('v Field \<Rightarrow> bool) \<Rightarrow> 'v Field \<Rightarrow> bool" where
  "node_ok R f =
     (R f \<and> tree_ok R (Fields f) \<and>
      (case Conditional f of None \<Rightarrow> True
       | Some c \<Rightarrow> tree_ok R (Then c) \<and> tree_ok R (Else c)))"

text \<open>
  The table of names after a list of fields has been registered; the reference of a
  field's conditional into a table; and the invariants of a scope that starts from a
  table \<open>S\<close> of names registered before it, field by field.
\<close>

fun registered :: "string set \<Rightarrow> 'v Field list \<Rightarrow> string set" where
  "registered S [] = S"
| "registered S (f # fs) = registered (register (Name f) S) fs"

definition cond_ref_ok :: "string set \<Rightarrow> 'v Field \<Rightarrow> bool" where
  "cond_ref_ok S f =
     (\<forall>c. Conditional f = Some c \<longrightarrow> Condition c \<noteq> [] \<and> Condition c \<in> S)"

fun scope_from :: "string set \<Rightarrow> 'v Field list \<Rightarrow> bool" where
  "scope_from S [] = True"
| "scope_from S (f # fs) =
     ((Name f = [] \<or> Name f \<notin> S) \<and> cond_ref_ok (register (Name f) S) f \<and>
      scope_from (register (Name f) S) fs)"

text \<open>An optional error whose path is \<open>p\<close> and whose class satisfies \<open>C\<close>.\<close>

definition err_in :: "path \<Rightarrow> (error_class \<Rightarrow> bool) \<Rightarrow> error option \<Rightarrow> bool" where
  "err_in p C c = (case c of None \<Rightarrow> True | Some e \<Rightarrow> error_path e = p \<and> C (class_of e))"

section \<open>The schema tree and the converter (lib/schemas/jsonschema/convert.go)\<close>

text \<open>
  The \<^verbatim>\<open>Schema\<close> struct of schema.go, with the fields that convert.go reads, in the
  order of the struct; the other keywords of the struct (\<^verbatim>\<open>$schema\<close>, \<^verbatim>\<open>$id\<close>,
  \<^verbatim>\<open>$defs\<close>, \<^verbatim>\<open>allOf\<close>, \<^verbatim>\<open>anyOf\<close>, \<^verbatim>\<open>oneOf\<close>, \<^verbatim>\<open>not\<close>,
  \<^verbatim>\<open>prefixItems\<close>, \<^verbatim>\<open>contains\<close>, \<^verbatim>\<open>uniqueItems\<close> and so on) are never read by
  the converter and are left out. A nil pointer, a nil map and the nil interface are
  \<open>None\<close>; a nil slice is the empty list, since the converter only takes its length
  or ranges over it.

  \<^verbatim>\<open>Type\<close> is a \<^verbatim>\<open>json.RawMessage\<close>: the bytes of the JSON value of the keyword,
  empty when the keyword is absent.

  \<^verbatim>\<open>Properties\<close> is a Go map from names to sub-schemas. Go leaves the order in
  which \<^verbatim>\<open>range\<close> visits a map unspecified, and it may differ from one run to the
  next: the association list holds the entries of the map in the order in which the
  loops of this run visit them.
\<close>

datatype 'v Schema = Schema
    (Schema_If: "'v Schema option")
    (Schema_Then: "'v Schema option")
    (Schema_Else: "'v Schema option")
    (Schema_Items: "'v Schema option")
    (Schema_Properties: "(string \<times> 'v Schema option) list option")
    (Schema_Type: string)
    (Schema_Enum: "'v any list")
    (Schema_Const: "'v any")
    (Schema_MultipleOf: "float64 option")
    (Schema_Maximum: "float64 option")
    (Schema_ExclusiveMaximum: "float64 option")
    (Schema_Minimum: "float64 option")
    (Schema_ExclusiveMinimum: "float64 option")
    (Schema_MaxLength: "int option")
    (Schema_MinLength: "int option")
    (Schema_Pattern: string)
    (Schema_Format: string)
    (Schema_MaxItems: "int option")
    (Schema_MinItems: "int option")
    (Schema_Required: "string list")
    (Schema_Title: string)
    (Schema_Description: string)
    (Schema_Default: "'v any")
    (Schema_Deprecated: "bool option")
    (Schema_ReadOnly: "bool option")

text \<open>
  The two calls of \<^verbatim>\<open>json.Unmarshal\<close> in \<^verbatim>\<open>GetType\<close>, into a \<^verbatim>\<open>string\<close> and into
  a \<^verbatim>\<open>[]string\<close>: the decoded value, or \<open>None\<close> when the call returns an error.
  They belong to Go's encoding/json and are parameters of the model.
\<close>

record json_decoders =
  unmarshal_string :: "string \<Rightarrow> string option"
  unmarshal_strings :: "string \<Rightarrow> string list option"

text \<open>\<^verbatim>\<open>Schema.GetType\<close> of schema.go.\<close>

definition GetType :: "json_decoders \<Rightarrow> 'v Schema \<Rightarrow> string \<times> string list \<times> bool" where
  "GetType json s =
     (if length (Schema_Type s) = 0 then ([], [], False)
      else
        (case unmarshal_string json (Schema_Type s) of
           Some str \<Rightarrow> (str, [], True)
         | None \<Rightarrow>
        (case unmarshal_strings json (Schema_Type s) of
           Some arr \<Rightarrow> ([], arr, True)
         | None \<Rightarrow> ([], [], False))))"

text \<open>
  The two errors of the converter: \<^verbatim>\<open>schema cannot be nil\<close>, and the wrapper
  \<^verbatim>\<open>error converting field %s: %w\<close> around the error of a property.
\<close>

datatype conv_error = ErrSchemaNil | ErrConvertingField string conv_error

definition mapJSONTypeToFieldType :: "string \<Rightarrow> 'v Schema \<Rightarrow> conv_error + FieldType" where
  "mapJSONTypeToFieldType jsonType schema =
     (if jsonType = ''string'' then
        (if Schema_Format schema = ''email'' then Inr FieldTypeEmail
         else if Schema_Format schema = ''uri'' \<or> Schema_Format schema = ''url''
         then Inr FieldTypeURL
         else if Schema_Format schema = ''date'' then Inr FieldTypeDate
         else if Schema_Format schema = ''time'' then Inr FieldTypeTime
         else if Schema_Format schema = ''date-time'' then Inr FieldTypeDateTime
         else if Schema_Format schema = ''password'' then Inr FieldTypePassword
         else
           (case Schema_MaxLength schema of
              Some m \<Rightarrow> if m > 100 then Inr FieldTypeTextarea else Inr FieldTypeText
            | None \<Rightarrow> Inr FieldTypeText))
      else if jsonType = ''number'' \<or> jsonType = ''integer'' then Inr FieldTypeNumber
      else if jsonType = ''boolean'' then Inr FieldTypeCheckbox
      else if jsonType = ''array'' then Inr FieldTypeArray
      else if jsonType = ''object'' then Inr FieldTypeObject
      else if jsonType = ''null'' then Inr FieldTypeText
      else Inr FieldTypeText)"

text \<open>The loop of determineFieldType over a list of types: the first that is not "null".\<close>

fun firstNonNull :: "string list \<Rightarrow> string option" where
  "firstNonNull [] = None"
| "firstNonNull (t # ts) = (if t \<noteq> ''null'' then Some t else firstNonNull ts)"

definition determineFieldType :: "json_decoders \<Rightarrow> 'v Schema \<Rightarrow> conv_error + FieldType" where
  "determineFieldType json schema =
     (case GetType json schema of (typeStr, typeArray, hasType) \<Rightarrow>
        if \<not> hasType then
          (if Schema_Properties schema \<noteq> None then Inr FieldTypeObject
           else if Schema_Items schema \<noteq> None then Inr FieldTypeArray
           else Inr FieldTypeText)
        else if typeArray \<noteq> [] then
          (case firstNonNull typeArray of
             Some t \<Rightarrow> mapJSONTypeToFieldType t schema
           | None \<Rightarrow> Inr FieldTypeText)
        else mapJSONTypeToFieldType typeStr schema)"

text \<open>The loop appends one option for each enum value.\<close>

definition convertEnumToOptions :: "('v any \<Rightarrow> string) \<Rightarrow> 'v any list \<Rightarrow> 'v FormOption list" where
  "convertEnumToOptions fmtv enum =
     foldl (\<lambda>options v. options @ [\<lparr>OptLabel = fmtv v, OptValue = v\<rparr>]) [] enum"

text \<open>\<^verbatim>\<open>&lib.Validation{}\<close>: every field at its zero value.\<close>

definition emptyValidation :: Validation where
  "emptyValidation = \<lparr>Required = False, MinLength = None, MaxLength = None,
     Min_val = None, Max_val = None, Pattern = [], PatternError = [], Step = None,
     MinItems = None, MaxItems = None\<rparr>"

definition buildValidation :: "'v Schema option \<Rightarrow> Validation option" where
  "buildValidation schema =
     (case schema of
        None \<Rightarrow> None
      | Some s \<Rightarrow>
          let v0 = emptyValidation;
              v1 = (if Schema_MinLength s \<noteq> None then v0\<lparr>MinLength := Schema_MinLength s\<rparr> else v0);
              v2 = (if Schema_MaxLength s \<noteq> None then v1\<lparr>MaxLength := Schema_MaxLength s\<rparr> else v1);
              v3 = (if Schema_Pattern s \<noteq> []
                    then v2\<lparr>Pattern := Schema_Pattern s, PatternError := ''Invalid format''\<rparr>
                    else v2);
              v4 = (if Schema_Minimum s \<noteq> None then v3\<lparr>Min_val := Schema_Minimum s\<rparr> else v3);
              v5 = (if Schema_Maximum s \<noteq> None then v4\<lparr>Max_val := Schema_Maximum s\<rparr> else v4);
              v6 = (if Schema_ExclusiveMinimum s \<noteq> None
                    then v5\<lparr>Min_val := Schema_ExclusiveMinimum s\<rparr> else v5);
              v7 = (if Schema_ExclusiveMaximum s \<noteq> None
                    then v6\<lparr>Max_val := Schema_ExclusiveMaximum s\<rparr> else v6);
              validation = (if Schema_MultipleOf s \<noteq> None
                    then v7\<lparr>Step := Schema_MultipleOf s\<rparr> else v7)
          in if MinLength validation = None \<and> MaxLength validation = None \<and>
                Min_val validation = None \<and> Max_val validation = None \<and>
                Pattern validation = [] \<and> Step validation = None
             then None
             else Some validation)"

text \<open>Assignments to one field of a \<^verbatim>\<open>Field\<close> struct.\<close>

definition set_Type :: "FieldType \<Rightarrow> 'v Field \<Rightarrow> 'v Field" where
  "set_Type t f = Field (Name f) t (Label f) (Description f) (Placeholder f) (Default f)
     (Value f) (Options f) (Validation f) (ReadOnly f) (Deprecated f) (Fields f)
     (Conditional f) (HelpText f)"

definition set_Value :: "'v any \<Rightarrow> 'v Field \<Rightarrow> 'v Field" where
  "set_Value v f = Field (Name f) (Type f) (Label f) (Description f) (Placeholder f)
     (Default f) v (Options f) (Validation f) (ReadOnly f) (Deprecated f) (Fields f)
     (Conditional f) (HelpText f)"

definition set_Options :: "'v FormOption list \<Rightarrow> 'v Field \<Rightarrow> 'v Field" where
  "set_Options os f = Field (Name f) (Type f) (Label f) (Description f) (Placeholder f)
     (Default f) (Value f) os (Validation f) (ReadOnly f) (Deprecated f) (Fields f)
     (Conditional f) (HelpText f)"

definition set_Validation :: "Validation option \<Rightarrow> 'v Field \<Rightarrow> 'v Field" where
  "set_Validation v f = Field (Name f) (Type f) (Label f) (Description f) (Placeholder f)
     (Default f) (Value f) (Options f) v (ReadOnly f) (Deprecated f) (Fields f)
     (Conditional f) (HelpText f)"

definition set_Fields :: "'v Field list \<Rightarrow> 'v Field \<Rightarrow> 'v Field" where
  "set_Fields fs f = Field (Name f) (Type f) (Label f) (Description f) (Placeholder f)
     (Default f) (Value f) (Options f) (Validation f) (ReadOnly f) (Deprecated f) fs
     (Conditional f) (HelpText f)"

definition set_Conditional :: "'v ConditionalField option \<Rightarrow> 'v Field \<Rightarrow> 'v Field" where
  "set_Conditional c f = Field (Name f) (Type f) (Label f) (Description f) (Placeholder f)
     (Default f) (Value f) (Options f) (Validation f) (ReadOnly f) (Deprecated f) (Fields f)
     c (HelpText f)"

text \<open>
  \<^verbatim>\<open>if field.Validation == nil { field.Validation = &lib.Validation{} }\<close> followed by
  a read of \<^verbatim>\<open>field.Validation\<close>.
\<close>

definition ensureValidation :: "Validation option \<Rightarrow> Validation" where
  "ensureValidation v = (case v of None \<Rightarrow> emptyValidation | Some w \<Rightarrow> w)"

text \<open>
  The straight-line parts of convertSchemaToField. \<open>newField\<close> is the struct literal
  the function starts from; \<open>applyEnumConst\<close> is the block "Handle enum/const";
  \<open>startField\<close> is the field after the type, the enum or const and the validation
  rules have been assigned, before the nested conversions; \<open>copyItemBounds\<close> is the
  pair of assignments of \<^verbatim>\<open>MinItems\<close> and \<^verbatim>\<open>MaxItems\<close> of an array.
\<close>

definition newField :: "string \<Rightarrow> 'v Schema \<Rightarrow> 'v Field" where
  "newField name schema =
     Field name [] (Schema_Title schema) (Schema_Description schema) []
       (Schema_Default schema) None [] None
       (Schema_ReadOnly schema = Some True) (Schema_Deprecated schema = Some True)
       [] None []"

definition applyEnumConst :: "('v any \<Rightarrow> string) \<Rightarrow> 'v Schema \<Rightarrow> 'v Field \<Rightarrow> 'v Field" where
  "applyEnumConst fmtv schema field =
     (if Schema_Enum schema \<noteq> [] then
        (let field' = set_Options (convertEnumToOptions fmtv (Schema_Enum schema)) field
         in if length (Options field') \<le> 3 then set_Type FieldTypeRadio field'
            else set_Type FieldTypeSelect field')
      else if Schema_Const schema \<noteq> None then
        set_Type FieldTypeHidden (set_Value (Schema_Const schema) field)
      else field)"

definition startField ::
  "('v any \<Rightarrow> string) \<Rightarrow> string \<Rightarrow> 'v Schema \<Rightarrow> FieldType \<Rightarrow> 'v Field"
where
  "startField fmtv name schema fieldType =
     set_Validation (buildValidation (Some schema))
       (applyEnumConst fmtv schema (set_Type fieldType (newField name schema)))"

definition copyItemBounds :: "'v Schema \<Rightarrow> 'v Field \<Rightarrow> 'v Field" where
  "copyItemBounds schema field =
     (let field' =
            (if Schema_MinItems schema \<noteq> None
             then set_Validation
                    (Some ((ensureValidation (Validation field))
                       \<lparr>MinItems := Schema_MinItems schema\<rparr>)) field
             else field)
      in if Schema_MaxItems schema \<noteq> None
         then set_Validation
                (Some ((ensureValidation (Validation field'))
                   \<lparr>MaxItems := Schema_MaxItems schema\<rparr>)) field'
         else field')"

text \<open>
  \<^verbatim>\<open>for name := range properties { condition = name; break }\<close>: the key the
  iteration visits first, and the empty string when there is none.
\<close>

definition firstKey :: "(string \<times> 'a) list option \<Rightarrow> string" where
  "firstKey properties = (case properties of Some ((name, _) # _) \<Rightarrow> name | _ \<Rightarrow> [])"

text \<open>
  \<open>propertiesLoop\<close> is the \<^verbatim>\<open>range\<close> loop of convertPropertiesToFields, with
  \<open>requiredMap\<close> the table built from \<^verbatim>\<open>required\<close> and \<open>flds\<close> the slice
  \<^verbatim>\<open>fields\<close> appended to so far.
\<close>

function convertPropertiesToFields ::
    "json_decoders \<Rightarrow> ('v any \<Rightarrow> string) \<Rightarrow> (string \<times> 'v Schema option) list option \<Rightarrow> string list
       \<Rightarrow> conv_error + 'v Field list"
  and propertiesLoop ::
    "json_decoders \<Rightarrow> ('v any \<Rightarrow> string) \<Rightarrow> (string \<times> 'v Schema option) list \<Rightarrow> string set \<Rightarrow> 'v Field list
       \<Rightarrow> conv_error + 'v Field list"
  and convertSchemaToField ::
    "json_decoders \<Rightarrow> ('v any \<Rightarrow> string) \<Rightarrow> string \<Rightarrow> 'v Schema option \<Rightarrow> conv_error + 'v Field option"
  and buildConditionalField ::
    "json_decoders \<Rightarrow> ('v any \<Rightarrow> string) \<Rightarrow> 'v Schema \<Rightarrow> conv_error + 'v ConditionalField option"
where
  "convertPropertiesToFields json fmtv properties required =
     propertiesLoop json fmtv (case properties of None \<Rightarrow> [] | Some entries \<Rightarrow> entries)
       (set required) []"
| "propertiesLoop json fmtv [] requiredMap flds = Inr flds"
| "propertiesLoop json fmtv ((name, propSchema) # rest) requiredMap flds =
     (case convertSchemaToField json fmtv name propSchema of
        Inl err \<Rightarrow> Inl (ErrConvertingField name err)
      | Inr None \<Rightarrow> propertiesLoop json fmtv rest requiredMap flds
      | Inr (Some field) \<Rightarrow>
          propertiesLoop json fmtv rest requiredMap
            (flds @
              [if name \<in> requiredMap
               then set_Validation
                      (Some ((ensureValidation (Validation field))\<lparr>Required := True\<rparr>)) field
               else field]))"
| "convertSchemaToField json fmtv name None = Inr None"
| "convertSchemaToField json fmtv name (Some schema) =
     (case determineFieldType json schema of
        Inl err \<Rightarrow> Inl err
      | Inr fieldType \<Rightarrow>
      case (if fieldType = FieldTypeObject \<and> Schema_Properties schema \<noteq> None then
              (case convertPropertiesToFields json fmtv (Schema_Properties schema)
                      (Schema_Required schema) of
                 Inl err \<Rightarrow> Inl err
               | Inr nestedFields \<Rightarrow>
                   Inr (set_Fields nestedFields (startField fmtv name schema fieldType)))
            else Inr (startField fmtv name schema fieldType)) of
        Inl err \<Rightarrow> Inl err
      | Inr field \<Rightarrow>
      case (if fieldType = FieldTypeArray then
              (case (if Schema_Items schema \<noteq> None then
                       (case convertSchemaToField json fmtv ''item'' (Schema_Items schema) of
                          Inl err \<Rightarrow> Inl err
                        | Inr None \<Rightarrow> Inr field
                        | Inr (Some itemField) \<Rightarrow> Inr (set_Fields [itemField] field))
                     else Inr field) of
                 Inl err \<Rightarrow> Inl err
               | Inr field' \<Rightarrow> Inr (copyItemBounds schema field'))
            else Inr field) of
        Inl err \<Rightarrow> Inl err
      | Inr field \<Rightarrow>
      if Schema_If schema \<noteq> None then
        (case buildConditionalField json fmtv schema of
           Inl err \<Rightarrow> Inl err
         | Inr None \<Rightarrow> Inr (Some field)
         | Inr (Some conditional) \<Rightarrow> Inr (Some (set_Conditional (Some conditional) field)))
      else Inr (Some field))"
| "buildConditionalField json fmtv schema =
     (case Schema_If schema of
        None \<Rightarrow> Inr None
      | Some ifSchema \<Rightarrow>
      case (case Schema_Then schema of
              None \<Rightarrow> Inr []
            | Some thenSchema \<Rightarrow>
                convertPropertiesToFields json fmtv (Schema_Properties thenSchema)
                  (Schema_Required thenSchema)) of
        Inl err \<Rightarrow> Inl err
      | Inr thenFields \<Rightarrow>
      case (case Schema_Else schema of
              None \<Rightarrow> Inr []
            | Some elseSchema \<Rightarrow>
                convertPropertiesToFields json fmtv (Schema_Properties elseSchema)
                  (Schema_Required elseSchema)) of
        Inl err \<Rightarrow> Inl err
      | Inr elseFields \<Rightarrow>
      if firstKey (Schema_Properties ifSchema) = [] then Inr None
      else Inr (Some (ConditionalField (firstKey (Schema_Properties ifSchema)) None
                        thenFields elseFields)))"
  by pat_completeness auto

definition props_size :: "(string \<times> 'v Schema option) list \<Rightarrow> nat" where
  "props_size = size_list (size_prod (\<lambda>x. 0) (size_option size))"

lemma size_Schema_Properties: "size_option props_size (Schema_Properties s) < size s"
  by (cases s) (simp add: props_size_def)

lemma size_Schema_Items: "size_option size (Schema_Items s) < size s"
  by (cases s) simp

lemma size_Schema_Then: "Schema_Then s = Some t \<Longrightarrow> size t < size s"
  by (cases s) simp

lemma size_Schema_Else: "Schema_Else s = Some t \<Longrightarrow> size t < size s"
  by (cases s) simp

termination convertPropertiesToFields
proof (relation "measure (\<lambda>x. case x of
           Inl (Inl (json, fmtv, props, req)) \<Rightarrow> 2 * size_option props_size props + 1
         | Inl (Inr (json, fmtv, es, reqm, fs)) \<Rightarrow> 2 * props_size es
         | Inr (Inl (json, fmtv, name, s)) \<Rightarrow> 2 * size_option size s
         | Inr (Inr (json, fmtv, s)) \<Rightarrow> 2 * size s + 1)", goal_cases)
  case 1
  show ?case by simp
next
  case (2 json fmtv properties required)
  show ?case by (cases properties) (simp_all add: props_size_def)
next
  case (3 json fmtv name propSchema rest requiredMap fields)
  show ?case by (simp add: props_size_def)
next
  case (4 json fmtv name propSchema rest requiredMap fields x)
  show ?case by (simp add: props_size_def)
next
  case (5 json fmtv name propSchema rest requiredMap fields x y)
  show ?case by (simp add: props_size_def)
next
  case (6 json fmtv name schema)
  show ?case using size_Schema_Properties [of schema] by simp
next
  case (7 json fmtv name schema)
  show ?case using size_Schema_Items [of schema] by simp
next
  case (8 json fmtv name schema)
  show ?case by simp
next
  case (9 json fmtv schema ifSchema thenSchema)
  show ?case
    using 9 size_Schema_Properties [of thenSchema] size_Schema_Then [of schema thenSchema]
    by simp
next
  case (10 json fmtv schema ifSchema thenFields elseSchema)
  show ?case
    using 10 size_Schema_Properties [of elseSchema] size_Schema_Else [of schema elseSchema]
    by simp
qed


definition ConvertSchemaToForm ::
  "json_decoders \<Rightarrow> ('v any \<Rightarrow> string) \<Rightarrow> 'v Schema option \<Rightarrow> conv_error + 'v Form"
where
  "ConvertSchemaToForm json fmtv schema =
     (case schema of
        None \<Rightarrow> Inl ErrSchemaNil
      | Some s \<Rightarrow>
          let form = \<lparr>Form_Title = Schema_Title s, Form_Description = Schema_Description s,
                        Action = [], Method = ''POST'', Form_Fields = []\<rparr>
          in
          if Schema_Properties s \<noteq> None then
            (case convertPropertiesToFields json fmtv (Schema_Properties s) (Schema_Required s) of
               Inl err \<Rightarrow> Inl err
             | Inr flds \<Rightarrow> Inr (form\<lparr>Form_Fields := flds\<rparr>))
          else
            (case convertSchemaToField json fmtv [] (Some s) of
               Inl err \<Rightarrow> Inl err
             | Inr None \<Rightarrow> Inr form
             | Inr (Some field) \<Rightarrow> Inr (form\<lparr>Form_Fields := [field]\<rparr>)))"

section \<open>Concrete inputs\<close>

text \<open>
  Instances of the two decoders for concrete runs. They agree with encoding/json on
  the raw messages used below: \<^verbatim>\<open>null\<close>, a JSON string of letters, digits, hyphens,
  underscores and blanks between two quotation marks, and an array of such strings
  without white space. \<open>json_quote s\<close> is the raw message of the JSON string \<open>s\<close>.
\<close>

definition json_quote :: "string \<Rightarrow> string" where
  "json_quote s = CHR 0x22 # s @ [CHR 0x22]"

definition decode_string :: "string \<Rightarrow> string option" where
  "decode_string raw =
     (if raw = ''null'' then Some []
      else if 2 \<le> length raw \<and> hd raw = CHR 0x22 \<and> last raw = CHR 0x22 \<and>
              list_all (\<lambda>c. c \<in> set (ascii_letters @ ascii_digits @ ''-_ ''))
                (butlast (tl raw))
      then Some (butlast (tl raw))
      else None)"

fun split_commas :: "string \<Rightarrow> string \<Rightarrow> string list" where
  "split_commas cur [] = [cur]"
| "split_commas cur (c # cs) =
     (if c = CHR '','' then cur # split_commas [] cs else split_commas (cur @ [c]) cs)"

definition decode_strings :: "string \<Rightarrow> string list option" where
  "decode_strings raw =
     (if raw = ''null'' \<or> raw = ''[]'' then Some []
      else if 2 \<le> length raw \<and> hd raw = CHR ''['' \<and> last raw = CHR '']''
      then those (map decode_string (split_commas [] (butlast (tl raw))))
      else None)"

definition json_plain :: json_decoders where
  "json_plain = \<lparr>unmarshal_string = decode_string, unmarshal_strings = decode_strings\<rparr>"

text \<open>A node of declared type "object" that carries an enum of strings.\<close>

definition enum_schema :: "string any list \<Rightarrow> string Schema" where
  "enum_schema vs = Schema None None None None None (json_quote ''object'') vs None
     None None None None None None None [] [] None None [] [] [] None None None"

text \<open>
  A map with the two properties "a" and "b", both plain strings, as two runs of the
  range loop may visit it.
\<close>

definition string_schema :: "string Schema" where
  "string_schema = Schema None None None None None (json_quote ''string'') [] None
     None None None None None None None [] [] None None [] [] [] None None None"

definition visit_ba :: "(string \<times> string Schema option) list" where
  "visit_ba = [(''b'', Some string_schema), (''a'', Some string_schema)]"

definition visit_ab :: "(string \<times> string Schema option) list" where
  "visit_ab = [(''a'', Some string_schema), (''b'', Some string_schema)]"

text \<open>A number with all four bounds: minimum 1, maximum 10, exclusive bounds 0 and 11.\<close>

definition bounded_schema :: "string Schema" where
  "bounded_schema = Schema None None None None None (json_quote ''number'') [] None
     None (Some (Finite 10)) (Some (Finite 11)) (Some (Finite 1)) (Some (Finite 0))
     None None [] [] None None [] [] [] None None None"

text \<open>
  Field trees for concrete runs of the validator. \<open>plain_field\<close> is a field with a
  name and a kind and nothing else; \<open>form_of\<close> is a form with the method "post" and
  the given fields.
\<close>

definition plain_field :: "string \<Rightarrow> FieldType \<Rightarrow> string Field" where
  "plain_field name t = Field name t [] [] [] None None [] None False False [] None []"

definition form_of :: "string Field list \<Rightarrow> string Form" where
  "form_of fs = \<lparr>Form_Title = [], Form_Description = [], Action = [], Method = ''post'',
     Form_Fields = fs\<rparr>"

text \<open>
  A registration form: a text field with length bounds, a number with a range and a
  step, a select with two options, and an object with two children whose conditional
  refers to the select and shows one more field.
\<close>

definition sample_form :: "string Form" where
  "sample_form = form_of
     [ set_Validation (Some (emptyValidation\<lparr>MinLength := Some 3, MaxLength := Some 20\<rparr>))
         (plain_field ''username'' FieldTypeText),
       set_Validation (Some (emptyValidation\<lparr>Min_val := Some (Finite 18),
           Max_val := Some (Finite 120), Step := Some (Finite 1)\<rparr>))
         (plain_field ''age'' FieldTypeNumber),
       set_Options [\<lparr>OptLabel = ''USA'', OptValue = Some ''us''\<rparr>,
                    \<lparr>OptLabel = ''Canada'', OptValue = Some ''ca''\<rparr>]
         (plain_field ''country'' FieldTypeSelect),
       set_Conditional (Some (ConditionalField ''country'' (Some ''us'')
                                [plain_field ''state'' FieldTypeText] []))
         (set_Fields [plain_field ''street'' FieldTypeText, plain_field ''city'' FieldTypeText]
            (plain_field ''address'' FieldTypeObject)) ]"

text \<open>A form whose only field is a date that carries minLength 5.\<close>

definition date_field :: "string Field" where
  "date_field = set_Validation (Some (emptyValidation\<lparr>MinLength := Some 5\<rparr>))
     (plain_field ''birthday'' FieldTypeDate)"

definition date_form :: "string Form" where
  "date_form = form_of [date_field]"

text \<open>A hidden field with maxLength 8, a file field with minLength 1 and a week with both.\<close>

definition length_bound_fields :: "string Field list" where
  "length_bound_fields =
     [ set_Validation (Some (emptyValidation\<lparr>MaxLength := Some 8\<rparr>))
         (plain_field ''token'' FieldTypeHidden),
       set_Validation (Some (emptyValidation\<lparr>MinLength := Some 1\<rparr>))
         (plain_field ''upload'' FieldTypeFile),
       set_Validation (Some (emptyValidation\<lparr>MinLength := Some 1, MaxLength := Some 8\<rparr>))
         (plain_field ''week'' FieldTypeWeek) ]"

text \<open>A number field with minLength 5, nested in an object.\<close>

definition number_with_length :: "string Field" where
  "number_with_length = set_Validation (Some (emptyValidation\<lparr>MinLength := Some 5\<rparr>))
     (plain_field ''age'' FieldTypeNumber)"

definition nested_number_form :: "string Form" where
  "nested_number_form = form_of
     [set_Fields [number_with_length] (plain_field ''person'' FieldTypeObject)]"

text \<open>A form whose only field, "a", has a conditional on "a" itself.\<close>

definition self_ref_field :: "string Field" where
  "self_ref_field = set_Conditional (Some (ConditionalField ''a'' None [] []))
     (plain_field ''a'' FieldTypeText)"

definition self_ref_form :: "string Form" where
  "self_ref_form = form_of [self_ref_field]"


text \<open>
  A form whose second field, an object, has a child with the invalid name "1x" and a
  conditional on the first field whose then list has a field with the invalid name
  "2y".
\<close>

definition order_field :: "string Field" where
  "order_field = set_Conditional (Some (ConditionalField ''a'' None
                                   [plain_field ''2y'' FieldTypeText] []))
     (set_Fields [plain_field ''1x'' FieldTypeText] (plain_field ''b'' FieldTypeObject))"

definition order_form :: "string Form" where
  "order_form = form_of [plain_field ''a'' FieldTypeText, order_field]"

section \<open>Properties of the converter\<close>

text \<open>The converter never fails on a schema node: every error branch is dead.\<close>

lemmas conv_induct = convertPropertiesToFields_propertiesLoop_convertSchemaToField_buildConditionalField.induct

declare convertSchemaToField.simps(2) [simp del]
declare buildConditionalField.simps [simp del]
declare convertPropertiesToFields.simps [simp del]

lemma mapJSONTypeToFieldType_total: "\<exists>t. mapJSONTypeToFieldType j s = Inr t"
  unfolding mapJSONTypeToFieldType_def by (simp split: option.split)

lemma determineFieldType_total: "\<exists>t. determineFieldType json s = Inr t"
  unfolding determineFieldType_def
  by (simp split: prod.split option.split add: mapJSONTypeToFieldType_total)

lemma convert_total:
  "\<exists>r. convertPropertiesToFields json fmtv props req = Inr (r :: 'v Field list)"
  "\<exists>r. propertiesLoop json fmtv es rm acc = Inr (r :: 'v Field list)"
  "\<exists>r. convertSchemaToField json fmtv name so = Inr (r :: 'v Field option)"
  "\<exists>r. buildConditionalField json fmtv s = Inr (r :: 'v ConditionalField option)"
proof (induction json fmtv props req and json fmtv es rm acc and json fmtv name so and json fmtv s
    rule: conv_induct)
  case (1 json fmtv properties required)
  then show ?case by (simp add: convertPropertiesToFields.simps)
next
  case (2 json fmtv requiredMap flds)
  then show ?case by simp
next
  case (3 json fmtv name propSchema rest requiredMap flds)
  from 3(1) obtain r where r: "convertSchemaToField json fmtv name propSchema = Inr r" by blast
  show ?case
  proof (cases r)
    case None
    with r 3(2) show ?thesis by simp
  next
    case (Some field)
    with r 3(3) show ?thesis by simp
  qed
next
  case (4 json fmtv name)
  then show ?case by simp
next
  case (5 json fmtv name schema)
  obtain t where dt: "determineFieldType json schema = Inr t"
    using determineFieldType_total by blast
  let ?start = "startField fmtv name schema t"
  let ?A = "if t = FieldTypeObject \<and> Schema_Properties schema \<noteq> None then
              (case convertPropertiesToFields json fmtv (Schema_Properties schema)
                      (Schema_Required schema) of
                 Inl err \<Rightarrow> Inl err
               | Inr nestedFields \<Rightarrow> Inr (set_Fields nestedFields ?start))
            else Inr ?start"
  have "\<exists>fa. ?A = Inr fa"
    using 5(1) [OF dt] by (cases "t = FieldTypeObject \<and> Schema_Properties schema \<noteq> None") auto
  then obtain fa where fa: "?A = Inr fa" ..
  let ?B = "if t = FieldTypeArray then
              (case (if Schema_Items schema \<noteq> None then
                       (case convertSchemaToField json fmtv ''item'' (Schema_Items schema) of
                          Inl err \<Rightarrow> Inl err
                        | Inr None \<Rightarrow> Inr fa
                        | Inr (Some itemField) \<Rightarrow> Inr (set_Fields [itemField] fa))
                     else Inr fa) of
                 Inl err \<Rightarrow> Inl err
               | Inr field' \<Rightarrow> Inr (copyItemBounds schema field'))
            else Inr fa"
  have "\<exists>fb. ?B = Inr fb"
  proof (cases "t = FieldTypeArray \<and> Schema_Items schema \<noteq> None")
    case True
    with 5(2) [OF dt fa] obtain r where
      "convertSchemaToField json fmtv ''item'' (Schema_Items schema) = Inr r" by blast
    with True show ?thesis by (cases r) auto
  next
    case False
    then show ?thesis by auto
  qed
  then obtain fb where fb: "?B = Inr fb" ..
  show ?case
  proof (cases "Schema_If schema \<noteq> None")
    case True
    with 5(3) [OF dt fa fb] obtain r where
      r: "buildConditionalField json fmtv schema = Inr r" by blast
    show ?thesis
      apply (subst convertSchemaToField.simps(2))
      apply (simp only: dt sum.case fa fb)
      apply (simp add: r True split: option.split)
      done
  next
    case False
    show ?thesis
      apply (subst convertSchemaToField.simps(2))
      apply (simp only: dt sum.case fa fb)
      using False apply simp
      done
  qed
next
  case (6 json fmtv schema)
  show ?case
  proof (cases "Schema_If schema")
    case None
    then show ?thesis by (simp add: buildConditionalField.simps)
  next
    case (Some ifSchema)
    let ?T = "case Schema_Then schema of
              None \<Rightarrow> Inr []
            | Some thenSchema \<Rightarrow>
                convertPropertiesToFields json fmtv (Schema_Properties thenSchema)
                  (Schema_Required thenSchema)"
    have "\<exists>tf. ?T = Inr tf"
      using 6(1) [OF Some] by (cases "Schema_Then schema") auto
    then obtain tf where tf: "?T = Inr tf" ..
    let ?E = "case Schema_Else schema of
              None \<Rightarrow> Inr []
            | Some elseSchema \<Rightarrow>
                convertPropertiesToFields json fmtv (Schema_Properties elseSchema)
                  (Schema_Required elseSchema)"
    have "\<exists>ef. ?E = Inr ef"
      using 6(2) [OF Some tf] by (cases "Schema_Else schema") auto
    then obtain ef where ef: "?E = Inr ef" ..
    show ?thesis
      apply (subst buildConditionalField.simps)
      apply (simp only: Some option.case tf ef sum.case)
      apply simp
      done
  qed
qed


lemma setter_sel [simp]:
  "Type (set_Fields fs f) = Type f" "Options (set_Fields fs f) = Options f"
  "Type (set_Validation v f) = Type f" "Options (set_Validation v f) = Options f"
  "Type (set_Conditional c f) = Type f" "Options (set_Conditional c f) = Options f"
  "Type (set_Type t f) = t" "Options (set_Type t f) = Options f"
  "Options (set_Options os f) = os" "Options (set_Value x f) = Options f"
  by (simp_all add: set_Fields_def set_Validation_def set_Conditional_def set_Type_def
        set_Options_def set_Value_def)

lemma copyItemBounds_sel [simp]:
  "Type (copyItemBounds schema f) = Type f" "Options (copyItemBounds schema f) = Options f"
  by (simp_all add: copyItemBounds_def Let_def)

lemma foldl_snoc_map: "foldl (\<lambda>acc v. acc @ [g v]) a xs = a @ map g xs"
  by (induction xs arbitrary: a) simp_all

lemma convertEnumToOptions_map:
  "convertEnumToOptions fmtv enum = map (\<lambda>v. \<lparr>OptLabel = fmtv v, OptValue = v\<rparr>) enum"
  by (simp add: convertEnumToOptions_def foldl_snoc_map)

lemma startField_enum:
  assumes "Schema_Enum schema \<noteq> []"
  shows "Options (startField fmtv name schema t) = convertEnumToOptions fmtv (Schema_Enum schema)"
    and "Type (startField fmtv name schema t) =
           (if length (Schema_Enum schema) \<le> 3 then FieldTypeRadio else FieldTypeSelect)"
  using assms by (simp_all add: startField_def applyEnumConst_def Let_def convertEnumToOptions_map)

lemma convertSchemaToField_Some:
  assumes dt: "determineFieldType json schema = Inr t"
  shows "\<exists>f. convertSchemaToField json fmtv name (Some schema) = Inr (Some f) \<and>
           Type f = Type (startField fmtv name schema t) \<and>
           Options f = Options (startField fmtv name schema t)"
proof -
  let ?start = "startField fmtv name schema t"
  let ?A = "if t = FieldTypeObject \<and> Schema_Properties schema \<noteq> None then
              (case convertPropertiesToFields json fmtv (Schema_Properties schema)
                      (Schema_Required schema) of
                 Inl err \<Rightarrow> Inl err
               | Inr nestedFields \<Rightarrow> Inr (set_Fields nestedFields ?start))
            else Inr ?start"
  obtain nested where
    "convertPropertiesToFields json fmtv (Schema_Properties schema) (Schema_Required schema)
       = Inr nested"
    using convert_total(1) by blast
  then have "\<exists>fa. ?A = Inr fa \<and> Type fa = Type ?start \<and> Options fa = Options ?start"
    by simp
  then obtain fa where fa: "?A = Inr fa"
    and pa: "Type fa = Type ?start" "Options fa = Options ?start" by blast
  let ?B = "if t = FieldTypeArray then
              (case (if Schema_Items schema \<noteq> None then
                       (case convertSchemaToField json fmtv ''item'' (Schema_Items schema) of
                          Inl err \<Rightarrow> Inl err
                        | Inr None \<Rightarrow> Inr fa
                        | Inr (Some itemField) \<Rightarrow> Inr (set_Fields [itemField] fa))
                     else Inr fa) of
                 Inl err \<Rightarrow> Inl err
               | Inr field' \<Rightarrow> Inr (copyItemBounds schema field'))
            else Inr fa"
  obtain item where
    item: "convertSchemaToField json fmtv ''item'' (Schema_Items schema) = Inr item"
    using convert_total(3) by blast
  have "\<exists>fb. ?B = Inr fb \<and> Type fb = Type fa \<and> Options fb = Options fa"
    by (cases item) (simp_all add: item)
  then obtain fb where fb: "?B = Inr fb"
    and pb: "Type fb = Type fa" "Options fb = Options fa" by blast
  obtain c where c: "buildConditionalField json fmtv schema = Inr c"
    using convert_total(4) by blast
  show ?thesis
    apply (subst convertSchemaToField.simps(2))
    apply (simp only: dt sum.case fa fb)
    apply (cases c; simp add: c pa pb)
    done
qed

lemma setter_Name [simp]:
  "Name (set_Fields fs f) = Name f" "Name (set_Validation v f) = Name f"
  "Name (set_Conditional c f) = Name f" "Name (set_Type t f) = Name f"
  "Name (set_Options os f) = Name f" "Name (set_Value x f) = Name f"
  by (simp_all add: set_Fields_def set_Validation_def set_Conditional_def set_Type_def
        set_Options_def set_Value_def)

lemma copyItemBounds_Name [simp]: "Name (copyItemBounds schema f) = Name f"
  by (simp add: copyItemBounds_def Let_def)

lemma startField_Name [simp]: "Name (startField fmtv name schema t) = name"
  by (simp add: startField_def applyEnumConst_def newField_def Let_def)

lemma convertSchemaToField_Name:
  "\<exists>f. convertSchemaToField json fmtv name (Some schema) = Inr (Some f) \<and> Name f = name"
proof -
  obtain t where dt: "determineFieldType json schema = Inr t"
    using determineFieldType_total by blast
  let ?start = "startField fmtv name schema t"
  let ?A = "if t = FieldTypeObject \<and> Schema_Properties schema \<noteq> None then
              (case convertPropertiesToFields json fmtv (Schema_Properties schema)
                      (Schema_Required schema) of
                 Inl err \<Rightarrow> Inl err
               | Inr nestedFields \<Rightarrow> Inr (set_Fields nestedFields ?start))
            else Inr ?start"
  obtain nested where
    "convertPropertiesToFields json fmtv (Schema_Properties schema) (Schema_Required schema)
       = Inr nested"
    using convert_total(1) by blast
  then have "\<exists>fa. ?A = Inr fa \<and> Name fa = name"
    by simp
  then obtain fa where fa: "?A = Inr fa" and pa: "Name fa = name" by blast
  let ?B = "if t = FieldTypeArray then
              (case (if Schema_Items schema \<noteq> None then
                       (case convertSchemaToField json fmtv ''item'' (Schema_Items schema) of
                          Inl err \<Rightarrow> Inl err
                        | Inr None \<Rightarrow> Inr fa
                        | Inr (Some itemField) \<Rightarrow> Inr (set_Fields [itemField] fa))
                     else Inr fa) of
                 Inl err \<Rightarrow> Inl err
               | Inr field' \<Rightarrow> Inr (copyItemBounds schema field'))
            else Inr fa"
  obtain item where
    item: "convertSchemaToField json fmtv ''item'' (Schema_Items schema) = Inr item"
    using convert_total(3) by blast
  have "\<exists>fb. ?B = Inr fb \<and> Name fb = Name fa"
    by (cases item) (simp_all add: item)
  then obtain fb where fb: "?B = Inr fb" and pb: "Name fb = Name fa" by blast
  obtain c where c: "buildConditionalField json fmtv schema = Inr c"
    using convert_total(4) by blast
  show ?thesis
    apply (subst convertSchemaToField.simps(2))
    apply (simp only: dt sum.case fa fb)
    apply (cases c; simp add: c pa pb)
    done
qed

lemma propertiesLoop_names:
  "\<exists>fs. propertiesLoop json fmtv es requiredMap acc = Inr fs \<and>
        map Name fs = map Name acc @ map fst (filter (\<lambda>e. snd e \<noteq> None) es)"
proof (induction es arbitrary: acc)
  case Nil
  show ?case by simp
next
  case (Cons e es)
  obtain name propSchema where e: "e = (name, propSchema)" by (cases e)
  show ?case
  proof (cases propSchema)
    case None
    with Cons [of acc] e show ?thesis by simp
  next
    case (Some schema)
    obtain f where f: "convertSchemaToField json fmtv name (Some schema) = Inr (Some f)"
      and n: "Name f = name"
      using convertSchemaToField_Name by blast
    let ?f = "if name \<in> requiredMap
               then set_Validation
                      (Some ((ensureValidation (Validation f))\<lparr>Required := True\<rparr>)) f
               else f"
    from Cons [of "acc @ [?f]"] e Some f n show ?thesis
      by (cases "name \<in> requiredMap") simp_all
  qed
qed

lemma string_field:
  "convertSchemaToField json_plain Sprint_string name (Some string_schema) =
     Inr (Some (Field name FieldTypeText [] [] [] None None [] None False False [] None []))"
  by (simp add: convertSchemaToField.simps(2) string_schema_def determineFieldType_def GetType_def
        json_plain_def decode_string_def json_quote_def ascii_letters_def ascii_digits_def
        mapJSONTypeToFieldType_def startField_def applyEnumConst_def newField_def
        buildValidation_def emptyValidation_def Let_def set_Type_def set_Validation_def
        FieldType_defs)

section \<open>Properties of the validation engine\<close>

declare tree_ok.simps [simp del]
declare validateField.simps(2) [simp del]
declare validateConditionalField.simps(2) [simp del]

lemma first_error_None: "first_error cs = None \<longleftrightarrow> (\<forall>c \<in> set cs. c = None)"
  by (induction cs rule: first_error.induct) auto

lemma validateFieldName_None: "validateFieldName n p = None \<longleftrightarrow> name_ok n"
  by (simp add: validateFieldName_def name_ok_def)

lemma validateFieldType_None: "validateFieldType t p = None \<longleftrightarrow> t \<in> validTypes"
  by (simp add: validateFieldType_def)

lemma uniqueOptionValues_None:
  "uniqueOptionValues fmtv p i os seen = None \<longleftrightarrow>
     distinct (map (\<lambda>option. fmtv (OptValue option)) os) \<and>
     set (map (\<lambda>option. fmtv (OptValue option)) os) \<inter> seen = {}"
  by (induction os arbitrary: i seen) (auto simp: Let_def)

lemma validateFieldTypeConstraints_None:
  "validateFieldTypeConstraints fmtv f p = None \<longleftrightarrow> options_ok fmtv f"
  unfolding validateFieldTypeConstraints_def options_ok_def option_values_def
    first_error_None
  by (auto simp: uniqueOptionValues_None is_textlike_def is_datelike_def FieldType_defs)

lemma validateValidationRules_None:
  "validateValidationRules (Some v) t p = None \<longleftrightarrow> bounds_ok v \<and> kind_match_enforced t v"
  unfolding validateValidationRules_def bounds_ok_def kind_match_enforced_def
    has_length_bound_def has_numeric_bound_def has_item_bound_def
  by (auto simp: first_error_None split: option.splits)


lemmas validate_induct = validateField_validateFields_validateConditionalField.induct


lemma all_less_Suc_split: "(\<forall>i < Suc n. P i) \<longleftrightarrow> P 0 \<and> (\<forall>i < n. P (Suc i))"
  by (auto simp: less_Suc_eq_0_disj)

lemma scope_from_iff:
  "scope_from S fs \<longleftrightarrow>
     distinct (filter (\<lambda>n. n \<noteq> []) (map Name fs)) \<and>
     set (filter (\<lambda>n. n \<noteq> []) (map Name fs)) \<inter> S = {} \<and>
     (\<forall>i < length fs. \<forall>c. Conditional (fs ! i) = Some c \<longrightarrow>
         Condition c \<noteq> [] \<and>
         (Condition c \<in> S \<or> Condition c \<in> set (map Name (take (Suc i) fs))))"
proof (induction fs arbitrary: S)
  case Nil
  show ?case by simp
next
  case (Cons f fs)
  show ?case
    unfolding scope_from.simps Cons.IH length_Cons all_less_Suc_split
    by (auto simp: register_def cond_ref_ok_def)
qed

lemma siblings_ok_scope_from: "siblings_ok fs \<longleftrightarrow> scope_from {} fs"
  by (simp add: siblings_ok_def scope_from_iff)

lemma tree_ok_iff:
  "tree_ok R fs \<longleftrightarrow> scope_from {} fs \<and> (\<forall>f \<in> set fs. node_ok R f)"
  by (subst tree_ok.simps) (simp add: siblings_ok_scope_from node_ok_def)


lemma own_checks_None:
  "own_checks fmtv f S p = None \<longleftrightarrow>
     name_ok (Name f) \<and> (Name f = [] \<or> Name f \<notin> S) \<and> Type f \<in> validTypes \<and>
     options_ok fmtv f \<and>
     (\<forall>v. Validation f = Some v \<longrightarrow> bounds_ok v \<and> kind_match_enforced (Type f) v)"
  unfolding own_checks_def first_error_None
  by (cases "Validation f")
     (auto simp: validateFieldName_None validateFieldType_None
        validateFieldTypeConstraints_None validateValidationRules_None)

lemma validate_iff:
  "\<forall>f S'. fo = Some f \<longrightarrow>
     (validateField fmtv fo S p = Inr S') =
     (S' = register (Name f) S \<and> (Name f = [] \<or> Name f \<notin> S) \<and>
      cond_ref_ok (register (Name f) S) f \<and>
      node_ok (field_rules kind_match_enforced fmtv) f)"
  "\<forall>S'. (validateFields fmtv p seg i fs S = Inr S') =
     (S' = registered S fs \<and> scope_from S fs \<and>
      (\<forall>f \<in> set fs. node_ok (field_rules kind_match_enforced fmtv) f))"
  "\<forall>c. co = Some c \<longrightarrow>
     (validateConditionalField fmtv co S p = None) =
     (Condition c \<noteq> [] \<and> Condition c \<in> S \<and>
      tree_ok (field_rules kind_match_enforced fmtv) (Then c) \<and>
      tree_ok (field_rules kind_match_enforced fmtv) (Else c))"
proof (induction fmtv fo S p and fmtv p seg i fs S and fmtv co S p rule: validate_induct)
  case (1 fmtv parentFieldNames path)
  show ?case by simp
next
  case (2 fmtv field parentFieldNames path)
  let ?R = "field_rules kind_match_enforced fmtv"
  let ?S = "register (Name field) parentFieldNames"
  let ?v = "validateField fmtv (Some field) parentFieldNames path"
  let ?c = "if Conditional field \<noteq> None
            then validateConditionalField fmtv (Conditional field) ?S path
            else None"
  have R: "?R field \<and> (Name field = [] \<or> Name field \<notin> parentFieldNames) \<longleftrightarrow>
      own_checks fmtv field parentFieldNames path = None \<and>
      (Fields field \<noteq> [] \<longrightarrow> Type field = FieldTypeObject \<or> Type field = FieldTypeArray)"
    unfolding own_checks_None field_rules_def by blast
  have goal: "(?v = Inr S') =
     (S' = ?S \<and> (Name field = [] \<or> Name field \<notin> parentFieldNames) \<and>
      cond_ref_ok ?S field \<and> node_ok ?R field)" for S'
  proof (cases "own_checks fmtv field parentFieldNames path")
    case (Some e)
    then have "?v = Inl e" by (simp add: validateField.simps(2))
    moreover from Some R have "\<not> (?R field \<and> (Name field = [] \<or> Name field \<notin> parentFieldNames))"
      by simp
    ultimately show ?thesis unfolding node_ok_def by auto
  next
    case None
    note oc = None
    have c: "?c = None \<longleftrightarrow> cond_ref_ok ?S field \<and>
        (case Conditional field of None \<Rightarrow> True
         | Some c \<Rightarrow> tree_ok ?R (Then c) \<and> tree_ok ?R (Else c))"
    proof (cases "Conditional field")
      case None
      then show ?thesis by (simp add: cond_ref_ok_def)
    next
      case (Some c)
      with 2(1) [OF oc] show ?thesis by (simp add: cond_ref_ok_def)
    qed
    show ?thesis
    proof (cases ?c)
      case (Some e)
      then have "?v = Inl e"
        by (simp only: validateField.simps(2) oc option.case sum.case)
      moreover from Some c have "\<not> (cond_ref_ok ?S field \<and> node_ok ?R field)"
        unfolding node_ok_def by auto
      ultimately show ?thesis by auto
    next
      case None
      note cn = None
      from cn c have cr: "cond_ref_ok ?S field"
        and ct: "(case Conditional field of None \<Rightarrow> True
         | Some c \<Rightarrow> tree_ok ?R (Then c) \<and> tree_ok ?R (Else c))" by simp_all
      have v: "?v = (if Fields field \<noteq> [] then
         if Type field \<noteq> FieldTypeObject \<and> Type field \<noteq> FieldTypeArray
         then Inl (ErrNestedWrongType path (Type field))
         else
           (case validateFields fmtv path fields_ix 0 (Fields field) {} of
              Inl err \<Rightarrow> Inl err
            | Inr nestedFieldNames \<Rightarrow> Inr ?S)
         else Inr ?S)"
        by (simp only: validateField.simps(2) oc option.case cn)
      show ?thesis
      proof (cases "Fields field = []")
        case True
        have "tree_ok ?R []" by (simp add: tree_ok_iff)
        with True R oc cr ct v show ?thesis unfolding node_ok_def by auto
      next
        case False
        note ne = False
        show ?thesis
        proof (cases "Type field \<noteq> FieldTypeObject \<and> Type field \<noteq> FieldTypeArray")
          case True
          with ne v have "?v = Inl (ErrNestedWrongType path (Type field))" by simp
          moreover from True ne have "\<not> ?R field" by (auto simp: field_rules_def)
          ultimately show ?thesis unfolding node_ok_def by auto
        next
          case False
          from 2(2) [OF oc cn ne False]
          have n: "(\<exists>N. validateFields fmtv path fields_ix 0 (Fields field) {} = Inr N)
              \<longleftrightarrow> tree_ok ?R (Fields field)"
            by (simp add: tree_ok_iff)
          from False R oc have Rf: "?R field"
            and nd: "Name field = [] \<or> Name field \<notin> parentFieldNames" by auto
          show ?thesis
          proof (cases "validateFields fmtv path fields_ix 0 (Fields field) {}")
            case (Inl e)
            with ne False v have "?v = Inl e" by auto
            moreover from Inl n have "\<not> node_ok ?R field" unfolding node_ok_def by auto
            ultimately show ?thesis by auto
          next
            case (Inr N)
            with ne False v have "?v = Inr ?S" by auto
            moreover from Inr n have "tree_ok ?R (Fields field)" by auto
            with Rf ct have "node_ok ?R field" unfolding node_ok_def by simp
            ultimately show ?thesis using nd cr by auto
          qed
        qed
      qed
    qed
  qed
  show ?case using goal by simp
next
  case (3 fmtv path seg i fieldNames)
  show ?case by auto
next
  case (4 fmtv path seg i field rest fieldNames)
  let ?R = "field_rules kind_match_enforced fmtv"
  have goal: "(validateFields fmtv path seg i (field # rest) fieldNames = Inr S') =
     (S' = registered fieldNames (field # rest) \<and> scope_from fieldNames (field # rest) \<and>
      (\<forall>f \<in> set (field # rest). node_ok ?R f))" for S'
  proof -
    have h: "(validateField fmtv (Some field) fieldNames (path @ [seg i]) = Inr N) =
       (N = register (Name field) fieldNames \<and>
        (Name field = [] \<or> Name field \<notin> fieldNames) \<and>
        cond_ref_ok (register (Name field) fieldNames) field \<and> node_ok ?R field)" for N
      using 4(1) by simp
    show ?thesis
    proof (cases "validateField fmtv (Some field) fieldNames (path @ [seg i])")
      case (Inl e)
      with h [of "register (Name field) fieldNames"]
      have "\<not> ((Name field = [] \<or> Name field \<notin> fieldNames) \<and>
        cond_ref_ok (register (Name field) fieldNames) field \<and> node_ok ?R field)"
        by simp
      with Inl show ?thesis by auto
    next
      case (Inr N)
      with h [of N] have N: "N = register (Name field) fieldNames"
        and ok: "(Name field = [] \<or> Name field \<notin> fieldNames)"
          "cond_ref_ok (register (Name field) fieldNames) field" "node_ok ?R field"
        by simp_all
      from 4(2) [OF Inr] have
        "(validateFields fmtv path seg (Suc i) rest N = Inr S') =
         (S' = registered N rest \<and> scope_from N rest \<and> (\<forall>f \<in> set rest. node_ok ?R f))"
        by simp
      with Inr ok show ?thesis by (auto simp: N)
    qed
  qed
  show ?case using goal by simp
next
  case (5 fmtv parentFieldNames path)
  show ?case by simp
next
  case (6 fmtv conditional parentFieldNames path)
  let ?R = "field_rules kind_match_enforced fmtv"
  let ?v = "validateConditionalField fmtv (Some conditional) parentFieldNames path"
  let ?T = "if Then conditional \<noteq> []
            then validateFields fmtv path then_ix 0 (Then conditional) {}
            else Inr {}"
  let ?E = "if Else conditional \<noteq> []
            then validateFields fmtv path else_ix 0 (Else conditional) {}
            else Inr {}"
  have goal: "(?v = None) =
     (Condition conditional \<noteq> [] \<and> Condition conditional \<in> parentFieldNames \<and>
      tree_ok ?R (Then conditional) \<and> tree_ok ?R (Else conditional))"
  proof (cases "Condition conditional = [] \<or> Condition conditional \<notin> parentFieldNames")
    case True
    then show ?thesis by (auto simp: validateConditionalField.simps(2))
  next
    case False
    then have g: "Condition conditional \<noteq> []" "\<not> Condition conditional \<notin> parentFieldNames"
      by auto
    have t: "(\<exists>N. ?T = Inr N) \<longleftrightarrow> tree_ok ?R (Then conditional)"
    proof (cases "Then conditional = []")
      case True
      then show ?thesis by (simp add: tree_ok_iff)
    next
      case False
      with 6(1) [OF g False] show ?thesis by (simp add: tree_ok_iff)
    qed
    show ?thesis
    proof (cases ?T)
      case (Inl e)
      then have "?v = Some e"
        using g by (simp only: validateConditionalField.simps(2) if_False sum.case)
      moreover from Inl t have "\<not> tree_ok ?R (Then conditional)" by auto
      ultimately show ?thesis by simp
    next
      case (Inr N)
      note T = Inr
      have e: "(\<exists>N. ?E = Inr N) \<longleftrightarrow> tree_ok ?R (Else conditional)"
      proof (cases "Else conditional = []")
        case True
        then show ?thesis by (simp add: tree_ok_iff)
      next
        case False
        with 6(2) [OF g T False] show ?thesis by (simp add: tree_ok_iff)
      qed
      from T t have tt: "tree_ok ?R (Then conditional)" by auto
      show ?thesis
      proof (cases ?E)
        case (Inl e')
        then have "?v = Some e'"
          using g by (simp only: validateConditionalField.simps(2) if_False T sum.case)
        moreover from Inl e have "\<not> tree_ok ?R (Else conditional)" by auto
        ultimately show ?thesis by simp
      next
        case (Inr M)
        then have "?v = None"
          using g by (simp only: validateConditionalField.simps(2) if_False T sum.case)
        moreover from Inr e have "tree_ok ?R (Else conditional)" by auto
        ultimately show ?thesis using g tt by simp
      qed
    qed
  qed
  show ?case using goal by simp
qed

lemma validateFields_ok_iff:
  "(\<exists>N. validateFields fmtv p seg i fs {} = Inr N) \<longleftrightarrow>
     tree_ok (field_rules kind_match_enforced fmtv) fs"
  using validate_iff(2) [of fmtv p seg i fs "{}"] by (simp add: tree_ok_iff)

lemma Validate_None_iff:
  "Validate ToUpper fmtv (Some form) = None \<longleftrightarrow> enforced_invariants ToUpper fmtv form"
proof (cases "validateFields fmtv [] fields_ix 0 (Form_Fields form) {}")
  case (Inl e)
  with validateFields_ok_iff [of fmtv "[]" fields_ix 0 "Form_Fields form"]
  have "\<not> tree_ok (field_rules kind_match_enforced fmtv) (Form_Fields form)" by simp
  with Inl show ?thesis
    by (simp add: Validate_def enforced_invariants_def form_ok_def method_ok_def)
next
  case (Inr N)
  with validateFields_ok_iff [of fmtv "[]" fields_ix 0 "Form_Fields form"]
  have "tree_ok (field_rules kind_match_enforced fmtv) (Form_Fields form)" by auto
  with Inr show ?thesis
    by (auto simp: Validate_def enforced_invariants_def form_ok_def method_ok_def)
qed




lemma err_in_simps [simp]:
  "err_in p C None" "err_in p C (Some e) \<longleftrightarrow> error_path e = p \<and> C (class_of e)"
  by (simp_all add: err_in_def)

lemma err_in_first_error: "(\<forall>c \<in> set cs. err_in p C c) \<Longrightarrow> err_in p C (first_error cs)"
  by (induction cs rule: first_error.induct) auto

lemma err_in_weaken: "err_in p C c \<Longrightarrow> (\<And>x. C x \<Longrightarrow> D x) \<Longrightarrow> err_in p D c"
  by (cases c) auto

lemma validateFieldName_err: "err_in p (\<lambda>k. k = NameError) (validateFieldName n p)"
  by (simp add: validateFieldName_def)

lemma validateFieldType_err: "err_in p (\<lambda>k. k = KindError) (validateFieldType t p)"
  by (simp add: validateFieldType_def)

lemma uniqueOptionValues_err:
  "err_in p (\<lambda>k. k = ConstraintError) (uniqueOptionValues fmtv p i os seen)"
  by (induction os arbitrary: i seen) (simp_all add: Let_def)

lemma validateFieldTypeConstraints_err:
  "err_in p (\<lambda>k. k = ConstraintError \<or> k = Unclassified) (validateFieldTypeConstraints fmtv f p)"
  unfolding validateFieldTypeConstraints_def
  by (rule err_in_first_error)
     (simp add: err_in_weaken [OF uniqueOptionValues_err])

lemma validateValidationRules_err:
  "err_in p (\<lambda>k. k = ConstraintError) (validateValidationRules vo t p)"
proof (cases vo)
  case None
  then show ?thesis by (simp add: validateValidationRules_def)
next
  case (Some v)
  show ?thesis
    unfolding validateValidationRules_def Some option.case
    by (rule err_in_first_error) (simp add: err_in_first_error split: option.split)
qed

lemma own_checks_err:
  "err_in p (\<lambda>k. k \<noteq> ReferenceError) (own_checks fmtv f S p)"
proof -
  have "err_in p (\<lambda>k. k \<noteq> ReferenceError) (validateFieldName (Name f) p)"
    by (rule err_in_weaken [OF validateFieldName_err]) simp
  moreover have "err_in p (\<lambda>k. k \<noteq> ReferenceError) (validateFieldType (Type f) p)"
    by (rule err_in_weaken [OF validateFieldType_err]) simp
  moreover have "err_in p (\<lambda>k. k \<noteq> ReferenceError) (validateFieldTypeConstraints fmtv f p)"
    by (rule err_in_weaken [OF validateFieldTypeConstraints_err]) auto
  moreover have "err_in p (\<lambda>k. k \<noteq> ReferenceError)
      (validateValidationRules (Validation f) (Type f) p)"
    by (rule err_in_weaken [OF validateValidationRules_err]) simp
  ultimately show ?thesis
    unfolding own_checks_def by (intro err_in_first_error) simp
qed

lemma error_paths:
  "validateField fmtv fo S p = Inl e \<longrightarrow> length p \<le> length (error_path e)"
  "validateFields fmtv p seg i fs S = Inl e \<longrightarrow> length p < length (error_path e)"
  "validateConditionalField fmtv co S p = Some e \<longrightarrow> length p \<le> length (error_path e)"
proof (induction fmtv fo S p and fmtv p seg i fs S and fmtv co S p rule: validate_induct)
  case (1 fmtv parentFieldNames path)
  show ?case by auto
next
  case (2 fmtv field parentFieldNames path)
  let ?S = "register (Name field) parentFieldNames"
  let ?c = "if Conditional field \<noteq> None
            then validateConditionalField fmtv (Conditional field) ?S path
            else None"
  show ?case
  proof (cases "own_checks fmtv field parentFieldNames path")
    case (Some e')
    with own_checks_err [of path fmtv field parentFieldNames] show ?thesis
      by (auto simp: validateField.simps(2))
  next
    case None
    note oc = None
    show ?thesis
    proof (cases ?c)
      case (Some e')
      then have "validateField fmtv (Some field) parentFieldNames path = Inl e'"
        by (simp only: validateField.simps(2) oc option.case sum.case)
      moreover from Some 2(1) [OF oc] have "e' = e \<longrightarrow> length path \<le> length (error_path e)"
        by (auto split: if_splits)
      ultimately show ?thesis by auto
    next
      case None
      note cn = None
      have v: "validateField fmtv (Some field) parentFieldNames path =
         (if Fields field \<noteq> [] then
         if Type field \<noteq> FieldTypeObject \<and> Type field \<noteq> FieldTypeArray
         then Inl (ErrNestedWrongType path (Type field))
         else
           (case validateFields fmtv path fields_ix 0 (Fields field) {} of
              Inl err \<Rightarrow> Inl err
            | Inr nestedFieldNames \<Rightarrow> Inr ?S)
         else Inr ?S)"
        by (simp only: validateField.simps(2) oc option.case cn)
      show ?thesis
      proof (cases "Fields field \<noteq> [] \<and>
          \<not> (Type field \<noteq> FieldTypeObject \<and> Type field \<noteq> FieldTypeArray)")
        case True
        then have "Fields field \<noteq> []"
          "\<not> (Type field \<noteq> FieldTypeObject \<and> Type field \<noteq> FieldTypeArray)" by auto
        from 2(2) [OF oc cn this] v True show ?thesis
          by (auto split: sum.splits)
      next
        case False
        with v show ?thesis by auto
      qed
    qed
  qed
next
  case (3 fmtv path seg i fieldNames)
  show ?case by simp
next
  case (4 fmtv path seg i field rest fieldNames)
  show ?case
  proof (cases "validateField fmtv (Some field) fieldNames (path @ [seg i])")
    case (Inl e')
    with 4(1) show ?thesis by auto
  next
    case (Inr N)
    with 4(2) [OF Inr] show ?thesis by simp
  qed
next
  case (5 fmtv parentFieldNames path)
  show ?case by simp
next
  case (6 fmtv conditional parentFieldNames path)
  let ?T = "if Then conditional \<noteq> []
            then validateFields fmtv path then_ix 0 (Then conditional) {}
            else Inr {}"
  let ?E = "if Else conditional \<noteq> []
            then validateFields fmtv path else_ix 0 (Else conditional) {}
            else Inr {}"
  show ?case
  proof (cases "Condition conditional = [] \<or> Condition conditional \<notin> parentFieldNames")
    case True
    then show ?thesis by (auto simp: validateConditionalField.simps(2))
  next
    case False
    then have g: "Condition conditional \<noteq> []" "\<not> Condition conditional \<notin> parentFieldNames"
      by auto
    show ?thesis
    proof (cases ?T)
      case (Inl e')
      then have "validateConditionalField fmtv (Some conditional) parentFieldNames path = Some e'"
        using g by (simp only: validateConditionalField.simps(2) if_False sum.case)
      moreover from Inl 6(1) [OF g] have "e' = e \<longrightarrow> length path < length (error_path e)"
        by (auto split: if_splits)
      ultimately show ?thesis by auto
    next
      case (Inr N)
      note T = Inr
      show ?thesis
      proof (cases ?E)
        case (Inl e')
        then have "validateConditionalField fmtv (Some conditional) parentFieldNames path = Some e'"
          using g by (simp only: validateConditionalField.simps(2) if_False T sum.case)
        moreover from Inl 6(2) [OF g T] have "e' = e \<longrightarrow> length path < length (error_path e)"
          by (auto split: if_splits)
        ultimately show ?thesis by auto
      next
        case (Inr M)
        then have "validateConditionalField fmtv (Some conditional) parentFieldNames path = None"
          using g by (simp only: validateConditionalField.simps(2) if_False T sum.case)
        then show ?thesis by simp
      qed
    qed
  qed
qed

lemma tree_ok_fields_of:
  "f \<in> fields_of fs \<Longrightarrow> tree_ok R fs \<Longrightarrow> node_ok R f"
proof (induction rule: fields_of.induct)
  case (top f)
  then show ?case by (simp add: tree_ok_iff)
next
  case (nested g f)
  then have "tree_ok R (Fields g)" by (simp add: node_ok_def)
  with nested(2) show ?case by (simp add: tree_ok_iff)
next
  case (in_then g c f)
  then have "tree_ok R (Then c)" by (simp add: node_ok_def)
  with in_then(3) show ?case by (simp add: tree_ok_iff)
next
  case (in_else g c f)
  then have "tree_ok R (Else c)" by (simp add: node_ok_def)
  with in_else(3) show ?case by (simp add: tree_ok_iff)
qed


lemma node_ok_Field:
  "node_ok R (Field n t l d ph df v os va ro de fs c h) =
     (R (Field n t l d ph df v os va ro de fs c h) \<and> tree_ok R fs \<and>
      (case c of None \<Rightarrow> True
       | Some c' \<Rightarrow> tree_ok R (Then c') \<and> tree_ok R (Else c')))"
  by (simp add: node_ok_def)

lemmas eval_defs = Validate_def own_checks_def validateFieldName_def validateFieldType_def
  validTypes_def validateFieldTypeConstraints_def validateValidationRules_def is_textlike_def
  is_datelike_def is_choice_def register_def ascii_letters_def ascii_digits_def ToLower_def
  lower_char_def reservedNames_def validMethods_def ToUpper_ascii_def upper_char_def
  Sprint_string_def FieldType_defs float_gt_def float_le_def set_Validation_def set_Options_def
  set_Fields_def set_Conditional_def plain_field_def emptyValidation_def form_of_def
  validateField.simps(2) validateConditionalField.simps(2) Let_def

lemmas spec_defs = s3_invariants_def enforced_invariants_def form_ok_def method_ok_def
  field_rules_def name_ok_def options_ok_def option_values_def bounds_ok_def
  kind_match_s3_def kind_match_enforced_def has_length_bound_def has_numeric_bound_def
  has_item_bound_def cond_ref_ok_def

lemma sample_form_valid: "Validate ToUpper_ascii Sprint_string (Some sample_form) = None"
  by (simp add: sample_form_def eval_defs)

lemma date_form_valid: "Validate ToUpper_ascii Sprint_string (Some date_form) = None"
  by (simp add: date_form_def date_field_def eval_defs)

lemma validateField_error_cases:
  assumes "validateField fmtv (Some f) S p = Inl e"
  shows "own_checks fmtv f S p = Some e \<or>
         (Conditional f \<noteq> None \<and>
          validateConditionalField fmtv (Conditional f) (register (Name f) S) p = Some e) \<or>
         e = ErrNestedWrongType p (Type f) \<or>
         validateFields fmtv p fields_ix 0 (Fields f) {} = Inl e"
  using assms
  by (auto simp: validateField.simps(2) split: option.splits sum.splits if_splits)

lemma validateConditionalField_error_cases:
  assumes "validateConditionalField fmtv (Some c) S p = Some e"
  shows "(Condition c = [] \<and> e = ErrNoCondition p) \<or>
         (Condition c \<notin> S \<and> e = ErrCondNonExistent p (Condition c)) \<or>
         validateFields fmtv p then_ix 0 (Then c) {} = Inl e \<or>
         validateFields fmtv p else_ix 0 (Else c) {} = Inl e"
  using assms
  by (auto simp: validateConditionalField.simps(2) split: sum.splits if_splits)

lemma date_field_breaks_s3: "\<not> field_rules kind_match_s3 Sprint_string date_field"
  by (simp add: date_field_def spec_defs eval_defs)

lemma date_form_breaks_s3: "\<not> s3_invariants ToUpper_ascii Sprint_string date_form"
proof
  assume "s3_invariants ToUpper_ascii Sprint_string date_form"
  then have "tree_ok (field_rules kind_match_s3 Sprint_string) [date_field]"
    by (simp add: s3_invariants_def form_ok_def date_form_def form_of_def)
  then have "field_rules kind_match_s3 Sprint_string date_field"
    by (subst (asm) tree_ok.simps) simp
  with date_field_breaks_s3 show False by simp
qed



text \<open>The result of the validator is the first violation of the traversal.\<close>

declare field_violations.simps [simp del]
declare conditional_violations.simps [simp del]

lemma first_error_somes: "first_error cs = first_of (somes cs)"
  by (induction cs rule: first_error.induct) (simp_all add: first_of_def)

lemma first_of_append:
  "first_of (xs @ ys) = (case first_of xs of Some e \<Rightarrow> Some e | None \<Rightarrow> first_of ys)"
  by (cases xs) (simp_all add: first_of_def)

lemma first_of_simps [simp]: "first_of [] = None" "first_of (e # es) = Some e"
  by (simp_all add: first_of_def)

lemma first_of_None: "first_of es = None \<longleftrightarrow> es = []"
  by (cases es) simp_all

lemma own_checks_first:
  "own_checks fmtv f S p = first_of (somes
       [ validateFieldName (Name f) p,
         if Name f \<noteq> [] \<and> Name f \<in> S then Some (ErrDuplicateName p (Name f)) else None,
         validateFieldType (Type f) p,
         validateFieldTypeConstraints fmtv f p,
         case Validation f of None \<Rightarrow> None
         | Some v \<Rightarrow> validateValidationRules (Some v) (Type f) p ])"
proof -
  have "(if Validation f \<noteq> None
         then validateValidationRules (Validation f) (Type f) p else None) =
        (case Validation f of None \<Rightarrow> None
         | Some v \<Rightarrow> validateValidationRules (Some v) (Type f) p)"
    by (cases "Validation f") simp_all
  then show ?thesis by (simp only: own_checks_def first_error_somes)
qed

lemma field_violations_first:
  "first_of (field_violations fmtv f S p) =
     (case own_checks fmtv f S p of
        Some e \<Rightarrow> Some e
      | None \<Rightarrow>
     (case first_of (case Conditional f of None \<Rightarrow> []
             | Some c \<Rightarrow> conditional_violations fmtv c (register (Name f) S) p) of
        Some e \<Rightarrow> Some e
      | None \<Rightarrow>
     if Fields f = [] then None
     else if Type f \<noteq> FieldTypeObject \<and> Type f \<noteq> FieldTypeArray
     then Some (ErrNestedWrongType p (Type f))
     else first_of (fields_violations fmtv p fields_ix 0 (Fields f) {})))"
  by (subst field_violations.simps)
     (simp only: first_of_append own_checks_first [symmetric], simp split: option.split)

lemma validate_first:
  "\<forall>f. fo = Some f \<longrightarrow>
     validateField fmtv fo S p =
       (case first_of (field_violations fmtv f S p) of
          None \<Rightarrow> Inr (register (Name f) S) | Some e \<Rightarrow> Inl e)"
  "validateFields fmtv p seg i fs S =
       (case first_of (fields_violations fmtv p seg i fs S) of
          None \<Rightarrow> Inr (registered S fs) | Some e \<Rightarrow> Inl e)"
  "\<forall>c. co = Some c \<longrightarrow>
     validateConditionalField fmtv co S p = first_of (conditional_violations fmtv c S p)"
proof (induction fmtv fo S p and fmtv p seg i fs S and fmtv co S p rule: validate_induct)
  case (1 fmtv parentFieldNames path)
  show ?case by simp
next
  case (2 fmtv field parentFieldNames path)
  let ?S = "register (Name field) parentFieldNames"
  let ?v = "validateField fmtv (Some field) parentFieldNames path"
  let ?c = "if Conditional field \<noteq> None
            then validateConditionalField fmtv (Conditional field) ?S path
            else None"
  let ?cv = "first_of (case Conditional field of None \<Rightarrow> []
             | Some c \<Rightarrow> conditional_violations fmtv c ?S path)"
  have goal: "?v = (case first_of (field_violations fmtv field parentFieldNames path) of
          None \<Rightarrow> Inr ?S | Some e \<Rightarrow> Inl e)"
  proof (cases "own_checks fmtv field parentFieldNames path")
    case (Some e)
    then show ?thesis by (simp add: validateField.simps(2) field_violations_first)
  next
    case None
    note oc = None
    have c: "?c = ?cv"
    proof (cases "Conditional field")
      case None
      then show ?thesis by simp
    next
      case (Some c)
      with 2(1) [OF oc] show ?thesis by simp
    qed
    show ?thesis
    proof (cases ?c)
      case (Some e)
      then have "?v = Inl e"
        by (simp only: validateField.simps(2) oc option.case sum.case)
      moreover from Some c have "?cv = Some e" by simp
      ultimately show ?thesis by (simp add: field_violations_first oc)
    next
      case None
      note cn = None
      from cn c have cv: "?cv = None" by simp
      have v: "?v = (if Fields field \<noteq> [] then
         if Type field \<noteq> FieldTypeObject \<and> Type field \<noteq> FieldTypeArray
         then Inl (ErrNestedWrongType path (Type field))
         else
           (case validateFields fmtv path fields_ix 0 (Fields field) {} of
              Inl err \<Rightarrow> Inl err
            | Inr nestedFieldNames \<Rightarrow> Inr ?S)
         else Inr ?S)"
        by (simp only: validateField.simps(2) oc option.case cn)
      show ?thesis
      proof (cases "Fields field \<noteq> [] \<and>
          \<not> (Type field \<noteq> FieldTypeObject \<and> Type field \<noteq> FieldTypeArray)")
        case True
        then have t: "Fields field \<noteq> []"
          "\<not> (Type field \<noteq> FieldTypeObject \<and> Type field \<noteq> FieldTypeArray)" by auto
        from 2(2) [OF oc cn t] v t show ?thesis
          by (auto simp: field_violations_first oc cv split: option.splits)
      next
        case False
        with v show ?thesis by (auto simp: field_violations_first oc cv)
      qed
    qed
  qed
  show ?case using goal by simp
next
  case (3 fmtv path seg i fieldNames)
  show ?case by simp
next
  case (4 fmtv path seg i field rest fieldNames)
  have h: "validateField fmtv (Some field) fieldNames (path @ [seg i]) =
       (case first_of (field_violations fmtv field fieldNames (path @ [seg i])) of
          None \<Rightarrow> Inr (register (Name field) fieldNames) | Some e \<Rightarrow> Inl e)"
    using 4(1) by simp
  show ?case
  proof (cases "first_of (field_violations fmtv field fieldNames (path @ [seg i]))")
    case (Some e)
    with h show ?thesis by (simp add: first_of_append)
  next
    case None
    with h have r: "validateField fmtv (Some field) fieldNames (path @ [seg i]) =
        Inr (register (Name field) fieldNames)" by simp
    from 4(2) [OF r] r None show ?thesis
      by (simp add: first_of_append split: option.split)
  qed
next
  case (5 fmtv parentFieldNames path)
  show ?case by simp
next
  case (6 fmtv conditional parentFieldNames path)
  let ?v = "validateConditionalField fmtv (Some conditional) parentFieldNames path"
  let ?T = "if Then conditional \<noteq> []
            then validateFields fmtv path then_ix 0 (Then conditional) {}
            else Inr {}"
  let ?E = "if Else conditional \<noteq> []
            then validateFields fmtv path else_ix 0 (Else conditional) {}
            else Inr {}"
  have goal: "?v = first_of (conditional_violations fmtv conditional parentFieldNames path)"
  proof (cases "Condition conditional = [] \<or> Condition conditional \<notin> parentFieldNames")
    case True
    then show ?thesis
      by (subst conditional_violations.simps)
         (auto simp: validateConditionalField.simps(2))
  next
    case False
    then have g: "Condition conditional \<noteq> []" "\<not> Condition conditional \<notin> parentFieldNames"
      by auto
    have t: "?T = (case first_of (fields_violations fmtv path then_ix 0 (Then conditional) {}) of
          None \<Rightarrow> Inr (registered {} (Then conditional)) | Some e \<Rightarrow> Inl e)"
    proof (cases "Then conditional = []")
      case True
      then show ?thesis by simp
    next
      case False
      with 6(1) [OF g False] show ?thesis by simp
    qed
    have cv: "first_of (conditional_violations fmtv conditional parentFieldNames path) =
        (case first_of (fields_violations fmtv path then_ix 0 (Then conditional) {}) of
           Some e \<Rightarrow> Some e
         | None \<Rightarrow> first_of (fields_violations fmtv path else_ix 0 (Else conditional) {}))"
      using g by (subst conditional_violations.simps) (simp add: first_of_append)
    show ?thesis
    proof (cases ?T)
      case (Inl e)
      then have "?v = Some e"
        using g by (simp only: validateConditionalField.simps(2) if_False sum.case)
      moreover from Inl t have
        "first_of (fields_violations fmtv path then_ix 0 (Then conditional) {}) = Some e"
        by (auto split: option.splits)
      ultimately show ?thesis by (simp add: cv)
    next
      case (Inr N)
      note T = Inr
      from T t have tn:
        "first_of (fields_violations fmtv path then_ix 0 (Then conditional) {}) = None"
        by (auto split: option.splits)
      have e: "?E = (case first_of (fields_violations fmtv path else_ix 0 (Else conditional) {}) of
          None \<Rightarrow> Inr (registered {} (Else conditional)) | Some e \<Rightarrow> Inl e)"
      proof (cases "Else conditional = []")
        case True
        then show ?thesis by simp
      next
        case False
        with 6(2) [OF g T False] show ?thesis by simp
      qed
      show ?thesis
      proof (cases ?E)
        case (Inl e')
        then have "?v = Some e'"
          using g by (simp only: validateConditionalField.simps(2) if_False T sum.case)
        moreover from Inl e have
          "first_of (fields_violations fmtv path else_ix 0 (Else conditional) {}) = Some e'"
          by (auto split: option.splits)
        ultimately show ?thesis by (simp add: cv tn)
      next
        case (Inr M)
        then have "?v = None"
          using g by (simp only: validateConditionalField.simps(2) if_False T sum.case)
        moreover from Inr e have
          "first_of (fields_violations fmtv path else_ix 0 (Else conditional) {}) = None"
          by (auto split: option.splits)
        ultimately show ?thesis by (simp add: cv tn)
      qed
    qed
  qed
  show ?case using goal by simp
qed

section \<open>Claims about the converter\<close>

text \<open>
  C2. For every schema node with a non-empty enum of size k, the converter produces a
  field whose options are the k enum values, in order, and whose kind is radio when
  k is at most 3 and select when k is at least 4, whatever type the node declares.
\<close>

theorem enum_kind_and_options:
  assumes "Schema_Enum schema \<noteq> []"
  shows "\<exists>f. convertSchemaToField json fmtv name (Some schema) = Inr (Some f) \<and>
           map OptValue (Options f) = Schema_Enum schema \<and>
           length (Options f) = length (Schema_Enum schema) \<and>
           Type f = (if length (Schema_Enum schema) \<le> 3 then FieldTypeRadio
                     else FieldTypeSelect)"
proof -
  obtain t where dt: "determineFieldType json schema = Inr t"
    using determineFieldType_total by blast
  from convertSchemaToField_Some [OF dt, where fmtv = fmtv and name = name]
  obtain f where f: "convertSchemaToField json fmtv name (Some schema) = Inr (Some f)"
    "Type f = Type (startField fmtv name schema t)"
    "Options f = Options (startField fmtv name schema t)" by blast
  have "map OptValue (Options f) = Schema_Enum schema"
    by (simp add: f(3) startField_enum(1) [OF assms] convertEnumToOptions_map comp_def)
  moreover have "length (Options f) = length (Schema_Enum schema)"
    by (simp add: f(3) startField_enum(1) [OF assms] convertEnumToOptions_map)
  moreover have "Type f = (if length (Schema_Enum schema) \<le> 3 then FieldTypeRadio
                     else FieldTypeSelect)"
    by (simp only: f(2) startField_enum(2) [OF assms])
  ultimately show ?thesis using f(1) by blast
qed

theorem enum_kind_and_options_witness:
  "(\<exists>f. convertSchemaToField json_plain Sprint_string ''size'' 
            (Some (enum_schema [Some ''s'', Some ''m'', Some ''l''])) = Inr (Some f) \<and>
        length (Options f) = 3 \<and> Type f = FieldTypeRadio) \<and>
   (\<exists>f. convertSchemaToField json_plain Sprint_string ''size''
            (Some (enum_schema [Some ''a'', Some ''b'', Some ''c'', Some ''d''])) = Inr (Some f) \<and>
        length (Options f) = 4 \<and> Type f = FieldTypeSelect)"
  using enum_kind_and_options [where schema = "enum_schema [Some ''s'', Some ''m'', Some ''l'']"
      and json = json_plain and fmtv = Sprint_string and name = "''size''"]
    enum_kind_and_options [where schema = "enum_schema [Some ''a'', Some ''b'', Some ''c'', Some ''d'']"
      and json = json_plain and fmtv = Sprint_string and name = "''size''"]
  by (auto simp add: enum_schema_def)

text \<open>
  C3 (as amended). The field list follows the order in which the range loop visits the
  properties map: the names of the produced fields are the keys with a non-nil
  sub-schema, in iteration order. The converter does not sort the keys.
\<close>

theorem fields_follow_iteration_order:
  "\<exists>fs. convertPropertiesToFields json fmtv (Some entries) required = Inr fs \<and>
        map Name fs = map fst (filter (\<lambda>e. snd e \<noteq> None) entries)"
  using propertiesLoop_names [where json = json and fmtv = fmtv and es = entries
      and requiredMap = "set required" and acc = "[]"]
  by (simp add: convertPropertiesToFields.simps)

theorem fields_follow_iteration_order_witness:
  "\<exists>fs. convertPropertiesToFields json_plain Sprint_string (Some visit_ba) [] = Inr fs \<and>
        map Name fs = [''b'', ''a'']"
  using fields_follow_iteration_order [where json = json_plain and fmtv = Sprint_string
      and entries = visit_ba and required = "[]"]
  by (simp add: visit_ba_def)

text \<open>
  C3 as stated fails: two runs that visit the same map in different orders produce
  the fields in different orders, and the first of them is not sorted.
\<close>

theorem unsorted_fields_counterexample:
  "mset visit_ba = mset visit_ab \<and>
   convertPropertiesToFields json_plain Sprint_string (Some visit_ba) [] =
     Inr [Field ''b'' FieldTypeText [] [] [] None None [] None False False [] None [],
          Field ''a'' FieldTypeText [] [] [] None None [] None False False [] None []] \<and>
   convertPropertiesToFields json_plain Sprint_string (Some visit_ab) [] =
     Inr [Field ''a'' FieldTypeText [] [] [] None None [] None False False [] None [],
          Field ''b'' FieldTypeText [] [] [] None None [] None False False [] None []] \<and>
   convertPropertiesToFields json_plain Sprint_string (Some visit_ba) [] \<noteq>
   convertPropertiesToFields json_plain Sprint_string (Some visit_ab) []"
  by (simp add: visit_ba_def visit_ab_def convertPropertiesToFields.simps string_field add.commute)

text \<open>
  C8. When a schema node carries both an inclusive and an exclusive bound on the same
  side, the exclusive one wins: the built Validation block has Min equal to
  exclusiveMinimum, and Max equal to exclusiveMaximum.
\<close>

theorem exclusive_bound_wins:
  "(Schema_Minimum schema = Some lo \<and> Schema_ExclusiveMinimum schema = Some xlo \<longrightarrow>
      (\<exists>v. buildValidation (Some schema) = Some v \<and> Min_val v = Some xlo)) \<and>
   (Schema_Maximum schema = Some hi \<and> Schema_ExclusiveMaximum schema = Some xhi \<longrightarrow>
      (\<exists>v. buildValidation (Some schema) = Some v \<and> Max_val v = Some xhi))"
  by (simp add: buildValidation_def Let_def)

theorem exclusive_bound_wins_witness:
  "(\<exists>v. buildValidation (Some bounded_schema) = Some v \<and> Min_val v = Some (Finite 0)) \<and>
   (\<exists>v. buildValidation (Some bounded_schema) = Some v \<and> Max_val v = Some (Finite 11))"
  using exclusive_bound_wins [where schema = bounded_schema and lo = "Finite 1"
      and xlo = "Finite 0" and hi = "Finite 10" and xhi = "Finite 11"]
  by (simp add: bounded_schema_def)

section \<open>Claims about the validation engine\<close>

text \<open>
  C1 (as amended). Validate returns success if and only if the form satisfies the
  invariants as form.go enforces them: a non-empty top-level field list; a method that
  is empty or, upper-cased, one of the seven HTTP verbs; in every scope pairwise distinct
  non-empty names; every non-empty name well-formed and not reserved; one of the 19
  recognized kinds; children only on object and array; the option rules of each kind;
  consistent bounds; bounds of the wrong group refused on text-like kinds, number, array
  and the choice kinds only; and every conditional naming a field registered in its
  scope when it is checked.
\<close>

theorem Validate_succeeds_iff_enforced:
  "Validate ToUpper fmtv (Some form) = None \<longleftrightarrow> enforced_invariants ToUpper fmtv form"
  by (rule Validate_None_iff)

theorem Validate_succeeds_iff_enforced_witness:
  "Validate ToUpper_ascii Sprint_string (Some sample_form) = None \<and>
   enforced_invariants ToUpper_ascii Sprint_string sample_form"
  using Validate_succeeds_iff_enforced [of ToUpper_ascii Sprint_string sample_form]
    sample_form_valid
  by simp

text \<open>
  C1 as stated fails: a date field that carries minLength violates the kind matching
  of section 3 (string bounds only for text-like kinds), and Validate accepts the form.
\<close>

theorem s3_violated_but_accepted_counterexample:
  "\<not> s3_invariants ToUpper_ascii Sprint_string date_form \<and>
   Validate ToUpper_ascii Sprint_string (Some date_form) = None"
  using date_form_breaks_s3 date_form_valid by simp

text \<open>
  C4 (as amended). Validate traverses in this order and returns the first violation
  found: the top-level fields in list order; for each field, first its own checks
  (name, duplicate, kind, options, validation rules), then, with the field's name
  registered in the enclosing scope, its conditional (the reference check, the then
  list, the else list, each list in a fresh scope), and only then its nested children
  in a fresh scope. When one violation lies in a field's nested children and another
  in the same field's conditional branch, the one in the conditional branch is reported.
\<close>

theorem Validate_returns_first_violation:
  "Validate ToUpper fmtv (Some form) = first_of (form_violations ToUpper fmtv form)"
  by (cases "first_of (fields_violations fmtv [] fields_ix 0 (Form_Fields form) {})")
     (simp_all add: Validate_def form_violations_def first_of_append
        validate_first(2) [of fmtv "[]" fields_ix 0 "Form_Fields form" "{}"])


theorem Validate_returns_first_violation_witness:
  "form_violations ToUpper_ascii Sprint_string order_form =
     [ErrInvalidName [fields_ix 1, then_ix 0] ''2y'',
      ErrInvalidName [fields_ix 1, fields_ix 0] ''1x''] \<and>
   Validate ToUpper_ascii Sprint_string (Some order_form) =
     Some (ErrInvalidName [fields_ix 1, then_ix 0] ''2y'')"
proof -
  have "form_violations ToUpper_ascii Sprint_string order_form =
     [ErrInvalidName [fields_ix 1, then_ix 0] ''2y'',
      ErrInvalidName [fields_ix 1, fields_ix 0] ''1x'']"
    by (simp add: form_violations_def order_form_def order_field_def
          field_violations.simps conditional_violations.simps eval_defs)
  with Validate_returns_first_violation [of ToUpper_ascii Sprint_string order_form]
  show ?thesis by simp
qed

text \<open>
  C4 as stated fails: the second field of the form has a child with an invalid name and
  a then list with an invalid name, and the error reported is the one of the then list.
\<close>

theorem nested_before_conditional_counterexample:
  "Form_Fields order_form ! 1 = order_field \<and>
   validateFields Sprint_string [fields_ix 1] fields_ix 0 (Fields order_field) {} =
     Inl (ErrInvalidName [fields_ix 1, fields_ix 0] ''1x'') \<and>
   map_option Then (Conditional order_field) = Some [plain_field ''2y'' FieldTypeText] \<and>
   Validate ToUpper_ascii Sprint_string (Some order_form) =
     Some (ErrInvalidName [fields_ix 1, then_ix 0] ''2y'')"
  by (simp add: order_form_def order_field_def eval_defs)

text \<open>
  C5 (as amended). A field's conditional may reference the field's own non-empty name.
  The name is registered in the enclosing scope before the conditional is checked, so
  validating such a field never yields a ReferenceError at the field's own path, and
  the field is accepted exactly when its name is not a duplicate and the field with
  its subtrees satisfies the enforced invariants.
\<close>

theorem self_reference_accepted:
  assumes "Name f \<noteq> []" and "Conditional f = Some c" and "Condition c = Name f"
  shows "(\<forall>e. validateField fmtv (Some f) S p = Inl e \<and> class_of e = ReferenceError
            \<longrightarrow> error_path e \<noteq> p) \<and>
         (validateField fmtv (Some f) S p = Inr (register (Name f) S) \<longleftrightarrow>
            Name f \<notin> S \<and> node_ok (field_rules kind_match_enforced fmtv) f)"
proof
  show "\<forall>e. validateField fmtv (Some f) S p = Inl e \<and> class_of e = ReferenceError
            \<longrightarrow> error_path e \<noteq> p"
  proof (intro allI impI, elim conjE)
    fix e
    assume v: "validateField fmtv (Some f) S p = Inl e" and r: "class_of e = ReferenceError"
    from validateField_error_cases [OF v]
    consider (own) "own_checks fmtv f S p = Some e"
      | (cond) "validateConditionalField fmtv (Some c) (register (Name f) S) p = Some e"
      | (kind) "e = ErrNestedWrongType p (Type f)"
      | (nested) "validateFields fmtv p fields_ix 0 (Fields f) {} = Inl e"
      using assms(2) by auto
    then show "error_path e \<noteq> p"
    proof cases
      case own
      with own_checks_err [of p fmtv f S] r show ?thesis by simp
    next
      case cond
      from validateConditionalField_error_cases [OF cond] assms
      have "validateFields fmtv p then_ix 0 (Then c) {} = Inl e \<or>
            validateFields fmtv p else_ix 0 (Else c) {} = Inl e"
        by (auto simp: register_def)
      with error_paths(2) [of fmtv p then_ix 0 "Then c" "{}" e]
        error_paths(2) [of fmtv p else_ix 0 "Else c" "{}" e]
      show ?thesis by auto
    next
      case kind
      with r show ?thesis by simp
    next
      case nested
      with error_paths(2) [of fmtv p fields_ix 0 "Fields f" "{}" e] show ?thesis by auto
    qed
  qed
next
  from assms have "cond_ref_ok (register (Name f) S) f"
    by (simp add: cond_ref_ok_def register_def)
  with validate_iff(1) [of "Some f" fmtv S p] assms(1)
  show "validateField fmtv (Some f) S p = Inr (register (Name f) S) \<longleftrightarrow>
            Name f \<notin> S \<and> node_ok (field_rules kind_match_enforced fmtv) f"
    by simp
qed

theorem self_reference_accepted_witness:
  "Name self_ref_field \<noteq> [] \<and>
   Conditional self_ref_field = Some (ConditionalField ''a'' None [] []) \<and>
   Condition (ConditionalField ''a'' None [] []) = Name self_ref_field \<and>
   validateField Sprint_string (Some self_ref_field) {} [fields_ix 0]
     \<noteq> Inl (ErrCondNonExistent [fields_ix 0] ''a'') \<and>
   validateField Sprint_string (Some self_ref_field) {} [fields_ix 0]
     \<noteq> Inl (ErrNoCondition [fields_ix 0])"
proof -
  have h: "Name self_ref_field \<noteq> []"
    "Conditional self_ref_field = Some (ConditionalField ''a'' None [] [])"
    "Condition (ConditionalField ''a'' None [] []) = Name self_ref_field"
    by (simp_all add: self_ref_field_def set_Conditional_def plain_field_def)
  from self_reference_accepted [OF h, of Sprint_string "{}" "[fields_ix 0]"]
  have "\<forall>e. validateField Sprint_string (Some self_ref_field) {} [fields_ix 0] = Inl e \<and>
          class_of e = ReferenceError \<longrightarrow> error_path e \<noteq> [fields_ix 0]" by blast
  then have "validateField Sprint_string (Some self_ref_field) {} [fields_ix 0]
     \<noteq> Inl (ErrCondNonExistent [fields_ix 0] ''a'')"
    "validateField Sprint_string (Some self_ref_field) {} [fields_ix 0]
     \<noteq> Inl (ErrNoCondition [fields_ix 0])"
    by fastforce+
  with h show ?thesis by simp
qed

text \<open>
  C5 as stated fails: the form whose only field "a" has a conditional on "a" is
  accepted.
\<close>

theorem self_reference_counterexample:
  "Form_Fields self_ref_form = [self_ref_field] \<and>
   Name self_ref_field = ''a'' \<and>
   map_option Condition (Conditional self_ref_field) = Some ''a'' \<and>
   Validate ToUpper_ascii Sprint_string (Some self_ref_form) = None"
  by (simp add: self_ref_form_def self_ref_field_def eval_defs)

text \<open>
  C6 (as amended). minLength and maxLength are refused on number, array, checkbox, radio
  and select: a form with such a field anywhere in its tree fails validation, and
  validateValidationRules answers with a ConstraintError. On every other kind that is
  not text-like (the date-like kinds, hidden, file, object) the validation rules accept
  a block exactly when its bounds are consistent, length bounds included.
\<close>

theorem length_bounds_by_kind:
  "(f \<in> fields_of (Form_Fields form) \<and> Validation f = Some v \<and> has_length_bound v \<and>
      length_gated (Type f) \<longrightarrow>
      Validate ToUpper fmtv (Some form) \<noteq> None \<and>
      (\<exists>e. validateValidationRules (Some v) (Type f) p = Some e \<and>
           class_of e = ConstraintError)) \<and>
   (\<not> is_textlike t \<and> \<not> length_gated t \<longrightarrow>
      (validateValidationRules (Some v) t p = None \<longleftrightarrow> bounds_ok v))"
proof -
  have 1: "Validate ToUpper fmtv (Some form) \<noteq> None \<and>
      (\<exists>e. validateValidationRules (Some v) (Type f) p = Some e \<and>
           class_of e = ConstraintError)"
    if f: "f \<in> fields_of (Form_Fields form)" and v: "Validation f = Some v"
      and l: "has_length_bound v" and g: "length_gated (Type f)"
  proof
    from l g have nk: "\<not> kind_match_enforced (Type f) v"
      by (auto simp: kind_match_enforced_def length_gated_def)
    show "Validate ToUpper fmtv (Some form) \<noteq> None"
    proof
      assume "Validate ToUpper fmtv (Some form) = None"
      then have "tree_ok (field_rules kind_match_enforced fmtv) (Form_Fields form)"
        by (simp add: Validate_None_iff enforced_invariants_def form_ok_def)
      from tree_ok_fields_of [OF f this] have "field_rules kind_match_enforced fmtv f"
        by (simp add: node_ok_def)
      with v nk show False by (simp add: field_rules_def)
    qed
    from nk validateValidationRules_None [of v "Type f" p]
    obtain e where e: "validateValidationRules (Some v) (Type f) p = Some e" by auto
    with validateValidationRules_err [of p "Some v" "Type f"]
    show "\<exists>e. validateValidationRules (Some v) (Type f) p = Some e \<and>
             class_of e = ConstraintError" by simp
  qed
  have 2: "validateValidationRules (Some v) t p = None \<longleftrightarrow> bounds_ok v"
    if "\<not> is_textlike t \<and> \<not> length_gated t"
  proof -
    from that have "kind_match_enforced t v"
      by (auto simp: kind_match_enforced_def length_gated_def)
    then show ?thesis by (simp add: validateValidationRules_None)
  qed
  from 1 2 show ?thesis by blast
qed

theorem length_bounds_by_kind_witness:
  "Validate ToUpper_ascii Sprint_string (Some nested_number_form) \<noteq> None \<and>
   (\<exists>e. validateValidationRules (Some (emptyValidation\<lparr>MinLength := Some 5\<rparr>))
          FieldTypeNumber [] = Some e \<and> class_of e = ConstraintError) \<and>
   validateValidationRules (Some (emptyValidation\<lparr>MinLength := Some 5\<rparr>)) FieldTypeDate [] = None"
proof -
  have top: "set_Fields [number_with_length] (plain_field ''person'' FieldTypeObject)
      \<in> fields_of (Form_Fields nested_number_form)"
    by (rule fields_of.top) (simp add: nested_number_form_def form_of_def)
  have f: "number_with_length \<in> fields_of (Form_Fields nested_number_form)"
    by (rule fields_of.nested [OF top]) (simp add: set_Fields_def)
  have v: "Validation number_with_length = Some (emptyValidation\<lparr>MinLength := Some 5\<rparr>)"
    and t: "Type number_with_length = FieldTypeNumber"
    by (simp_all add: number_with_length_def set_Validation_def plain_field_def)
  have l: "has_length_bound (emptyValidation\<lparr>MinLength := Some 5\<rparr>)"
    by (simp add: has_length_bound_def)
  have g: "length_gated FieldTypeNumber" by (simp add: length_gated_def)
  have d: "\<not> is_textlike FieldTypeDate \<and> \<not> length_gated FieldTypeDate"
    by (simp add: is_textlike_def length_gated_def is_choice_def FieldType_defs)
  have b: "bounds_ok (emptyValidation\<lparr>MinLength := Some 5\<rparr>)"
    by (simp add: bounds_ok_def emptyValidation_def)
  from length_bounds_by_kind [of number_with_length nested_number_form
      "emptyValidation\<lparr>MinLength := Some 5\<rparr>" ToUpper_ascii Sprint_string "[]" FieldTypeDate]
    f v t l g d b
  show ?thesis by simp
qed

text \<open>
  C6 as stated fails: a hidden field with maxLength, a file field with minLength and a
  week field with both are accepted.
\<close>

theorem length_bounds_accepted_counterexample:
  "map Type length_bound_fields = [FieldTypeHidden, FieldTypeFile, FieldTypeWeek] \<and>
   \<not> is_textlike FieldTypeHidden \<and> \<not> is_textlike FieldTypeFile \<and> \<not> is_textlike FieldTypeWeek \<and>
   map (\<lambda>f. map_option has_length_bound (Validation f)) length_bound_fields
     = [Some True, Some True, Some True] \<and>
   Validate ToUpper_ascii Sprint_string (Some (form_of length_bound_fields)) = None"
  by (simp add: length_bound_fields_def has_length_bound_def eval_defs)



text \<open>
  C10. Calling Validate on a nil form returns the error "form cannot be nil": the nil
  receiver is an error branch of its own, taken before any field of the form is read.
\<close>

theorem Validate_nil_form: "Validate ToUpper fmtv None = Some ErrFormNil"
  by (simp add: Validate_def)

end
